theory Spec2Isabelle
  imports Complex_Main "HOL-Library.Word"
begin

section \<open>Raster images\<close>

text \<open>
  \<^verbatim>\<open>reviewer/review.py\<close> works on Pillow images. An image has a size \<open>(xsize, ysize)\<close>
  and one row of pixels per line; \<open>getdata()\<close> reads the pixels row by row. Both images
  of a comparison are opened with \<open>.convert("RGBA")\<close>, so a pixel is four bytes.
\<close>

type_synonym rgba = "8 word \<times> 8 word \<times> 8 word \<times> 8 word"

record 'p image =
  xsize :: nat
  ysize :: nat
  rows :: "'p list list"

definition im_size :: "'p image \<Rightarrow> nat \<times> nat" where
  "im_size im = (xsize im, ysize im)"

text \<open>Every image Pillow hands out has \<open>ysize\<close> rows of \<open>xsize\<close> pixels each.\<close>

definition well_formed :: "'p image \<Rightarrow> bool" where
  "well_formed im \<longleftrightarrow>
     length (rows im) = ysize im \<and> list_all (\<lambda>r. length r = xsize im) (rows im)"

definition getdata :: "'p image \<Rightarrow> 'p list" where
  "getdata im = concat (rows im)"

datatype error =
    ValueError
  | ZeroDivisionError
  | CaptureError
  | DecodeError

subsection \<open>\<open>ImageChops.difference\<close>\<close>

text \<open>
  \<open>abs(image1 - image2)\<close>, byte by byte over all four bands. The result covers the
  area the two operands share: its size is the smaller width and the smaller height.
\<close>

definition absdiff :: "8 word \<Rightarrow> 8 word \<Rightarrow> 8 word" where
  "absdiff x y = (if y \<le> x then x - y else y - x)"

fun difference_px :: "rgba \<Rightarrow> rgba \<Rightarrow> rgba" where
  "difference_px (r1, g1, b1, a1) (r2, g2, b2, a2) =
     (absdiff r1 r2, absdiff g1 g2, absdiff b1 b2, absdiff a1 a2)"

definition difference :: "rgba image \<Rightarrow> rgba image \<Rightarrow> rgba image" where
  "difference im1 im2 =
     (let w = min (xsize im1) (xsize im2);
          h = min (ysize im1) (ysize im2)
      in \<lparr>xsize = w, ysize = h,
          rows = map2 (\<lambda>r1 r2. map2 difference_px (take w r1) (take w r2))
                   (take h (rows im1)) (take h (rows im2))\<rparr>)"

subsection \<open>\<open>Image.convert("L")\<close>\<close>

text \<open>
  The ITU-R 601-2 luma transform in Pillow's fixed-point form,
  \<open>(R * 19595 + G * 38470 + B * 7471 + 0x8000) >> 16\<close>. The alpha band is not read.
\<close>

fun L24 :: "rgba \<Rightarrow> nat" where
  "L24 (r, g, b, a) = unat r * 19595 + unat g * 38470 + unat b * 7471 + 32768"

definition rgb2l :: "rgba \<Rightarrow> 8 word" where
  "rgb2l p = of_nat (L24 p div 65536)"

definition convert_L :: "rgba image \<Rightarrow> (8 word) image" where
  "convert_L im = \<lparr>xsize = xsize im, ysize = ysize im, rows = map (map rgb2l) (rows im)\<rparr>"

subsection \<open>\<open>Image.resize\<close>\<close>

text \<open>
  The resampling kernel of the imaging library is a parameter of the model. What
  \<open>resize\<close> itself decides is kept: an image that already has the requested size is
  copied, and a requested width or height below one raises \<open>ValueError\<close>.
\<close>

type_synonym resampler = "rgba image \<Rightarrow> nat \<times> nat \<Rightarrow> rgba image"

definition resize :: "resampler \<Rightarrow> rgba image \<Rightarrow> nat \<times> nat \<Rightarrow> error + rgba image" where
  "resize rs im sz =
     (if im_size im = sz then Inr im
      else if fst sz < 1 \<or> snd sz < 1 then Inl ValueError
      else Inr (rs im sz))"

text \<open>The contract of a resampler: the result is an image of the requested size.\<close>

definition resampler_ok :: "resampler \<Rightarrow> bool" where
  "resampler_ok rs \<longleftrightarrow>
     (\<forall>im w h. well_formed im \<and> 0 < w \<and> 0 < h \<longrightarrow>
        well_formed (rs im (w, h)) \<and> im_size (rs im (w, h)) = (w, h))"

text \<open>Nearest-neighbour resampling, one resampler that meets the contract.\<close>

definition pixel_at :: "rgba image \<Rightarrow> nat \<Rightarrow> nat \<Rightarrow> rgba" where
  "pixel_at im x y =
     (if y < length (rows im) \<and> x < length (rows im ! y) then rows im ! y ! x
      else (0, 0, 0, 0))"

definition nearest :: resampler where
  "nearest im sz =
     (case sz of (w, h) \<Rightarrow>
        \<lparr>xsize = w, ysize = h,
         rows = map (\<lambda>y. map (\<lambda>x. pixel_at im (x * xsize im div w) (y * ysize im div h)) [0..<w])
                  [0..<h]\<rparr>)"

section \<open>The comparator\<close>

text \<open>
  \<^verbatim>\<open>
  def mismatch_ratio(im1, im2) -> float:
    if im1.size != im2.size:
      im2 = im2.resize(im1.size)
    diff = ImageChops.difference(im1, im2).convert("L")
    total = diff.size[0] * diff.size[1]
    nonzero = sum(1 for px in diff.getdata() if px != 0)
    return nonzero / total
  \<close>
  The quotient of two integers is modelled as a rational number; a zero \<open>total\<close> raises
  \<open>ZeroDivisionError\<close>.
\<close>

definition mismatch_ratio :: "resampler \<Rightarrow> rgba image \<Rightarrow> rgba image \<Rightarrow> error + rat" where
  "mismatch_ratio rs im1 im2 =
     (case (if im_size im1 \<noteq> im_size im2 then resize rs im2 (im_size im1) else Inr im2) of
        Inl e \<Rightarrow> Inl e
      | Inr im2' \<Rightarrow>
          (let diff = convert_L (difference im1 im2');
               total = fst (im_size diff) * snd (im_size diff);
               nonzero = sum_list [1 . px \<leftarrow> getdata diff, px \<noteq> 0]
           in if total = 0 then Inl ZeroDivisionError
              else Inr (of_nat nonzero / of_nat total)))"

text \<open>
  The count of the specification's wording: the pixels at which at least one channel
  of the two images differs, over the number of pixels.
\<close>

definition spec_mismatch_ratio :: "rgba image \<Rightarrow> rgba image \<Rightarrow> rat" where
  "spec_mismatch_ratio im1 im2 =
     of_nat (length [(p, q) \<leftarrow> zip (getdata im1) (getdata im2). p \<noteq> q])
       / of_nat (xsize im1 * ysize im1)"

text \<open>Two pixels that agree in red, green and blue; two images that do so everywhere.\<close>

fun same_rgb :: "rgba \<Rightarrow> rgba \<Rightarrow> bool" where
  "same_rgb (r1, g1, b1, a1) (r2, g2, b2, a2) \<longleftrightarrow> r1 = r2 \<and> g1 = g2 \<and> b1 = b2"

definition alpha_only :: "rgba image \<Rightarrow> rgba image \<Rightarrow> bool" where
  "alpha_only im1 im2 \<longleftrightarrow>
     im_size im1 = im_size im2 \<and> list_all2 (list_all2 same_rgb) (rows im1) (rows im2)"

section \<open>The run\<close>

subsection \<open>Configuration, platform and file system\<close>

type_synonym viewport = "string \<times> nat \<times> nat"

definition VIEWPORTS :: "viewport list" where
  "VIEWPORTS = [(''desktop'', 1440, 900), (''mobile'', 390, 844)]"

definition OUT_DIR :: string where
  "OUT_DIR = ''ai-agents-py/reviewer/artifacts''"

definition REF_DIR :: string where
  "REF_DIR = ''ai-agents-py/reviewer/reference''"

text \<open>The settings read from the process environment when the module is loaded.\<close>

record config =
  TARGET_URL :: string
  READY_SELECTOR :: string
  THRESHOLD :: rat

text \<open>
  What the run takes from outside the repository: the resampling kernel, the browser
  (for a URL, a viewport and a readiness selector it yields the page's screenshot or
  fails), and the text of \<open>round(ratio * 100, 2)\<close>.
\<close>

record platform =
  resample :: resampler
  chromium :: "string \<Rightarrow> nat \<Rightarrow> nat \<Rightarrow> string \<Rightarrow> error + rgba image"
  pct_text :: "rat \<Rightarrow> string"

text \<open>
  A file is a picture (given as the image that \<open>Image.open(...).convert("RGBA")\<close>
  decodes from it), a text, or bytes that no decoder accepts. The world keeps the
  files by path, the paths written so far in order, and the lines printed.
\<close>

datatype content = Png "rgba image" | Text string | Unreadable

record world =
  files :: "string \<rightharpoonup> content"
  written :: "string list"
  printed :: "string list"

definition write_file :: "string \<Rightarrow> content \<Rightarrow> world \<Rightarrow> world" where
  "write_file p f wd = wd\<lparr>files := (files wd)(p \<mapsto> f), written := written wd @ [p]\<rparr>"

definition exists_file :: "world \<Rightarrow> string \<Rightarrow> bool" where
  "exists_file wd p \<longleftrightarrow> files wd p \<noteq> None"

definition open_rgba :: "world \<Rightarrow> string \<Rightarrow> error + rgba image" where
  "open_rgba wd p = (case files wd p of Some (Png im) \<Rightarrow> Inr im | _ \<Rightarrow> Inl DecodeError)"

text \<open>\<open>Path / name\<close> for the plain file names the run builds.\<close>

definition path_join :: "string \<Rightarrow> string \<Rightarrow> string" where
  "path_join dir name = dir @ ''/'' @ name"

definition actual_path :: "string \<Rightarrow> string" where
  "actual_path label = path_join OUT_DIR (''actual-'' @ label @ ''.png'')"

definition diff_path :: "string \<Rightarrow> string" where
  "diff_path label = path_join OUT_DIR (''diff-'' @ label @ ''.png'')"

definition ref_path :: "string \<Rightarrow> string" where
  "ref_path label = path_join REF_DIR (label @ ''.png'')"

definition report_path :: string where
  "report_path = path_join OUT_DIR ''report.md''"

subsection \<open>Report text\<close>

abbreviation nl :: string where
  "nl \<equiv> [CHR 0x0A]"

text \<open>The two status labels; the marks are U+274C and U+2705 in UTF-8.\<close>

definition fail_label :: string where
  "fail_label = [CHR 0xE2, CHR 0x9D, CHR 0x8C] @ '' Fail''"

definition pass_label :: string where
  "pass_label = [CHR 0xE2, CHR 0x9C, CHR 0x85] @ '' Pass''"

definition status_label :: "rat \<Rightarrow> rat \<Rightarrow> string" where
  "status_label threshold ratio = (if ratio > threshold then fail_label else pass_label)"

definition report_title :: string where
  "report_title = ''# Visual Review Report'' @ nl"

definition skipped_section :: "string \<Rightarrow> string" where
  "skipped_section label =
     ''### '' @ label @ nl @ ''Reference not found at '' @ ref_path label @ ''. Skipping.'' @ nl"

definition compared_section :: "platform \<Rightarrow> config \<Rightarrow> string \<Rightarrow> rat \<Rightarrow> string" where
  "compared_section pf c label ratio =
     ''### '' @ label @ nl
     @ ''- Mismatch: **'' @ pct_text pf ratio @ ''%** ('' @ status_label (THRESHOLD c) ratio @ '')'' @ nl
     @ ''- Actual: '' @ actual_path label @ nl
     @ ''- Reference: '' @ ref_path label @ nl
     @ ''- Diff: '' @ diff_path label @ nl"

definition hints :: string where
  "hints = nl @ ''---'' @ nl @ ''## Hints'' @ nl
     @ ''- Check spacing scale / container widths'' @ nl
     @ ''- Verify fonts and line-height vs. tokens'' @ nl
     @ ''- Check color tokens/border opacity'' @ nl
     @ ''- Ensure component variants match your design system'' @ nl"

fun join :: "string \<Rightarrow> string list \<Rightarrow> string" where
  "join sep [] = []"
| "join sep [x] = x"
| "join sep (x # y # ys) = x @ sep @ join sep (y # ys)"

subsection \<open>Capture, the loop body, the loop and \<open>main\<close>\<close>

text \<open>
  \<open>screenshot\<close> drives the browser and saves the page at \<open>out_path\<close>; a navigation
  failure or a readiness timeout is raised before anything is written.
\<close>

definition screenshot ::
  "platform \<Rightarrow> string \<Rightarrow> nat \<Rightarrow> nat \<Rightarrow> string \<Rightarrow> string \<Rightarrow> world \<Rightarrow> error + world" where
  "screenshot pf url width height out_path ready wd =
     (case chromium pf url width height ready of
        Inl e \<Rightarrow> Inl e
      | Inr page \<Rightarrow> Inr (write_file out_path (Png page) wd))"

text \<open>
  The body of the \<open>for\<close> loop of \<open>main\<close>, on the world and the report lines so far. An
  exception leaves the loop with the world as it is at that moment.
\<close>

definition review_viewport ::
  "platform \<Rightarrow> config \<Rightarrow> viewport \<Rightarrow> world \<times> string list \<Rightarrow> world \<times> (error + string list)" where
  "review_viewport pf c v s =
     (case v of (label, w, h) \<Rightarrow>
      case s of (wd, report) \<Rightarrow>
        (let actual = actual_path label;
             diffp = diff_path label;
             ref = ref_path label
         in case screenshot pf (TARGET_URL c) w h actual (READY_SELECTOR c) wd of
              Inl e \<Rightarrow> (wd, Inl e)
            | Inr wd1 \<Rightarrow>
                if \<not> exists_file wd1 ref
                then (wd1, Inr (report @ [skipped_section label]))
                else
                  (case open_rgba wd1 actual of
                     Inl e \<Rightarrow> (wd1, Inl e)
                   | Inr a \<Rightarrow>
                  (case open_rgba wd1 ref of
                     Inl e \<Rightarrow> (wd1, Inl e)
                   | Inr r \<Rightarrow>
                  (case mismatch_ratio (resample pf) a r of
                     Inl e \<Rightarrow> (wd1, Inl e)
                   | Inr ratio \<Rightarrow>
                       (let d = difference a r;
                            wd2 = write_file diffp (Png d) wd1
                        in (wd2, Inr (report @ [compared_section pf c label ratio]))))))))"

fun review_loop ::
  "platform \<Rightarrow> config \<Rightarrow> viewport list \<Rightarrow> world \<times> string list \<Rightarrow> world \<times> (error + string list)" where
  "review_loop pf c [] s = (fst s, Inr (snd s))"
| "review_loop pf c (v # vs) s =
     (case review_viewport pf c v s of
        (wd, Inl e) \<Rightarrow> (wd, Inl e)
      | (wd, Inr report) \<Rightarrow> review_loop pf c vs (wd, report))"

text \<open>
  \<open>main\<close> over a registry of viewports: the title, the loop, the hints, then the one
  write of the report and the confirmation line. \<open>main\<close> itself runs it on \<open>VIEWPORTS\<close>.
  Files are kept by path, so creating the output directory changes nothing, and saving
  a picture or the report stores it at its path.
\<close>

definition main_over :: "platform \<Rightarrow> config \<Rightarrow> viewport list \<Rightarrow> world \<Rightarrow> world \<times> (error + unit)" where
  "main_over pf c registry wd =
     (case review_loop pf c registry (wd, [report_title]) of
        (wd1, Inl e) \<Rightarrow> (wd1, Inl e)
      | (wd1, Inr report) \<Rightarrow>
          (let report' = report @ [hints];
               wd2 = write_file report_path (Text (join nl report')) wd1;
               wd3 = wd2\<lparr>printed := printed wd2
                        @ [[CHR 0xE2, CHR 0x9C, CHR 0x85] @ '' wrote '' @ report_path]\<rparr>
           in (wd3, Inr ())))"

definition main :: "platform \<Rightarrow> config \<Rightarrow> world \<Rightarrow> world \<times> (error + unit)" where
  "main pf c wd = main_over pf c VIEWPORTS wd"

subsection \<open>Sections of the report\<close>

text \<open>
  A report line is the section of a viewport when it is that viewport's skipped
  section or its compared section for some ratio.
\<close>

definition section_for :: "platform \<Rightarrow> config \<Rightarrow> viewport \<Rightarrow> string \<Rightarrow> bool" where
  "section_for pf c v s \<longleftrightarrow>
     (case v of (label, w, h) \<Rightarrow>
        s = skipped_section label \<or> (\<exists>ratio. s = compared_section pf c label ratio))"

subsection \<open>Sample inputs\<close>

text \<open>Small pictures, the default configuration, and a few platforms and worlds.\<close>

definition px_black :: rgba where
  "px_black = (0, 0, 0, 255)"

definition px_white :: rgba where
  "px_white = (255, 255, 255, 255)"

definition px_clear :: rgba where
  "px_clear = (0, 0, 0, 0)"

definition img_black :: "rgba image" where
  "img_black = \<lparr>xsize = 1, ysize = 1, rows = [[px_black]]\<rparr>"

definition img_white :: "rgba image" where
  "img_white = \<lparr>xsize = 1, ysize = 1, rows = [[px_white]]\<rparr>"

definition img_clear :: "rgba image" where
  "img_clear = \<lparr>xsize = 1, ysize = 1, rows = [[px_clear]]\<rparr>"

definition img_wide :: "rgba image" where
  "img_wide = \<lparr>xsize = 2, ysize = 1, rows = [[px_black, px_white]]\<rparr>"

definition default_config :: config where
  "default_config =
     \<lparr>TARGET_URL = ''http://localhost:3000'', READY_SELECTOR = ''body'', THRESHOLD = 1 / 100\<rparr>"

definition pct_sample :: "rat \<Rightarrow> string" where
  "pct_sample ratio = (if ratio = 0 then ''0.0'' else if ratio = 1 / 2 then ''50.0'' else ''100.0'')"

text \<open>A browser that always renders the one-pixel black page.\<close>

definition black_page :: platform where
  "black_page =
     \<lparr>resample = nearest, chromium = (\<lambda>url w h ready. Inr img_black), pct_text = pct_sample\<rparr>"

text \<open>A browser that renders the two-pixel page.\<close>

definition wide_page :: platform where
  "wide_page =
     \<lparr>resample = nearest, chromium = (\<lambda>url w h ready. Inr img_wide), pct_text = pct_sample\<rparr>"

text \<open>Browsers that time out at one width and render the black page at any other.\<close>

definition desktop_down :: platform where
  "desktop_down =
     \<lparr>resample = nearest,
      chromium = (\<lambda>url w h ready. if w = 1440 then Inl CaptureError else Inr img_black),
      pct_text = pct_sample\<rparr>"

definition mobile_down :: platform where
  "mobile_down =
     \<lparr>resample = nearest,
      chromium = (\<lambda>url w h ready. if w = 390 then Inl CaptureError else Inr img_black),
      pct_text = pct_sample\<rparr>"

definition empty_world :: world where
  "empty_world = \<lparr>files = Map.empty, written = [], printed = []\<rparr>"

text \<open>A world whose only file is the black reference picture of \<open>desktop\<close>.\<close>

definition desktop_ref_world :: world where
  "desktop_ref_world =
     \<lparr>files = [ref_path ''desktop'' \<mapsto> Png img_black], written = [], printed = []\<rparr>"

text \<open>A configuration whose threshold is negative.\<close>

definition negative_config :: config where
  "negative_config =
     \<lparr>TARGET_URL = ''http://localhost:3000'', READY_SELECTOR = ''body'', THRESHOLD = - 1 / 2\<rparr>"

text \<open>
  Worlds whose one file is a reference that cannot be decoded, and a world whose
  reference of \<open>desktop\<close> is the transparent picture.
\<close>

definition corrupt_desktop_world :: world where
  "corrupt_desktop_world =
     \<lparr>files = [ref_path ''desktop'' \<mapsto> Unreadable], written = [], printed = []\<rparr>"

definition corrupt_mobile_world :: world where
  "corrupt_mobile_world =
     \<lparr>files = [ref_path ''mobile'' \<mapsto> Unreadable], written = [], printed = []\<rparr>"

definition clear_ref_world :: world where
  "clear_ref_world =
     \<lparr>files = [ref_path ''desktop'' \<mapsto> Png img_clear], written = [], printed = []\<rparr>"

section \<open>Properties of the image operations\<close>

lemma absdiff_commute: "absdiff x y = absdiff y x"
  by (auto simp: absdiff_def)

lemma absdiff_same: "absdiff x x = 0"
  by (simp add: absdiff_def)

lemma difference_px_commute: "difference_px p q = difference_px q p"
  by (cases p; cases q) (simp add: absdiff_commute)

lemma map2_commute:
  assumes "\<And>x y. f x y = f y x"
  shows "map2 f xs ys = map2 f ys xs"
proof -
  have "map2 f xs ys = map (\<lambda>(x, y). f x y) (map (\<lambda>(x, y). (y, x)) (zip ys xs))"
    by (subst zip_commute) (rule refl)
  also have "\<dots> = map2 f ys xs"
    using assms by (simp add: case_prod_unfold)
  finally show ?thesis .
qed

lemma difference_commute: "difference a b = difference b a"
proof -
  have row: "\<And>w r1 r2. map2 difference_px (take w r1) (take w r2)
                         = map2 difference_px (take w r2) (take w r1)"
    by (rule map2_commute) (rule difference_px_commute)
  show ?thesis
    unfolding difference_def Let_def
    by (simp add: min.commute map2_commute [OF row])
qed

lemma count_nonzero: "sum_list [1 . px \<leftarrow> xs, px \<noteq> 0] = length (filter (\<lambda>px. px \<noteq> 0) xs)"
  by (induction xs) auto

lemma length_concat_uniform:
  "list_all (\<lambda>r. length r = w) rs \<Longrightarrow> length (concat rs) = w * length rs"
  by (induction rs) auto

lemma length_getdata: "well_formed im \<Longrightarrow> length (getdata im) = xsize im * ysize im"
proof -
  assume wf: "well_formed im"
  then have "list_all (\<lambda>r. length r = xsize im) (rows im)"
    by (simp add: well_formed_def)
  then have "length (concat (rows im)) = xsize im * length (rows im)"
    by (rule length_concat_uniform)
  moreover have "length (rows im) = ysize im"
    using wf by (simp add: well_formed_def)
  ultimately show ?thesis
    by (simp only: getdata_def)
qed

lemma well_formed_convert_L: "well_formed im \<Longrightarrow> well_formed (convert_L im)"
  by (simp add: well_formed_def convert_L_def list_all_iff)

lemma im_size_convert_L: "im_size (convert_L im) = im_size im"
  by (simp add: im_size_def convert_L_def)

lemma im_size_difference:
  "im_size (difference a b) = (min (xsize a) (xsize b), min (ysize a) (ysize b))"
  by (simp add: im_size_def difference_def Let_def)

lemma well_formed_difference:
  assumes "well_formed a" "well_formed b"
  shows "well_formed (difference a b)"
proof -
  let ?w = "min (xsize a) (xsize b)" and ?h = "min (ysize a) (ysize b)"
  have la: "length (rows a) = ysize a" and lb: "length (rows b) = ysize b"
    using assms by (simp_all add: well_formed_def)
  have ra: "\<And>r. r \<in> set (rows a) \<Longrightarrow> length r = xsize a"
    and rb: "\<And>r. r \<in> set (rows b) \<Longrightarrow> length r = xsize b"
    using assms by (simp_all add: well_formed_def list_all_iff)
  have "length (rows (difference a b)) = ?h"
    by (simp add: difference_def Let_def la lb)
  moreover have "length r = ?w" if "r \<in> set (rows (difference a b))" for r
  proof -
    from that obtain r1 r2 where z: "(r1, r2) \<in> set (zip (take ?h (rows a)) (take ?h (rows b)))"
      and r: "r = map2 difference_px (take ?w r1) (take ?w r2)"
      by (auto simp: difference_def Let_def)
    from z have "r1 \<in> set (rows a)" "r2 \<in> set (rows b)"
      by (auto dest: set_zip_leftD set_zip_rightD in_set_takeD)
    then show ?thesis using r ra rb by simp
  qed
  moreover have "xsize (difference a b) = ?w" "ysize (difference a b) = ?h"
    by (simp_all add: difference_def Let_def)
  ultimately show ?thesis
    unfolding well_formed_def list_all_iff by metis
qed

section \<open>Properties of the comparator\<close>

lemma dims_convert_L: "xsize (convert_L im) = xsize im" "ysize (convert_L im) = ysize im"
  by (simp_all add: convert_L_def)

lemma dims_difference:
  "xsize (difference a b) = min (xsize a) (xsize b)"
  "ysize (difference a b) = min (ysize a) (ysize b)"
  by (simp_all add: difference_def Let_def)

lemma mismatch_ratio_same_size:
  "im_size a = im_size b \<Longrightarrow>
   mismatch_ratio rs a b =
     (let diff = convert_L (difference a b);
          total = fst (im_size diff) * snd (im_size diff);
          nonzero = sum_list [1 . px \<leftarrow> getdata diff, px \<noteq> 0]
      in if total = 0 then Inl ZeroDivisionError
         else Inr (of_nat nonzero / of_nat total))"
  by (simp add: mismatch_ratio_def)

lemma rgb2l_same_rgb: "same_rgb p q \<Longrightarrow> rgb2l (difference_px p q) = 0"
  by (cases p; cases q) (simp add: rgb2l_def absdiff_same)

lemma map2_all2:
  assumes "list_all2 P xs ys" and "\<And>x y. P x y \<Longrightarrow> Q (f x y)"
  shows "list_all Q (map2 f xs ys)"
  using assms by (induction rule: list_all2_induct) auto

lemma filter_none: "list_all (\<lambda>x. \<not> P x) xs \<Longrightarrow> filter P xs = []"
  by (induction xs) auto

lemma concat_all: "list_all (list_all P) xss \<Longrightarrow> list_all P (concat xss)"
  by (induction xss) auto

lemma getdata_luma_zero:
  assumes "list_all2 (list_all2 same_rgb) (rows a) (rows b)"
  shows "list_all (\<lambda>px. \<not> px \<noteq> 0) (getdata (convert_L (difference a b)))"
proof -
  let ?w = "min (xsize a) (xsize b)" and ?h = "min (ysize a) (ysize b)"
  have rws: "list_all2 (list_all2 same_rgb) (take ?h (rows a)) (take ?h (rows b))"
    using assms by (rule list_all2_takeI)
  have row: "list_all (\<lambda>p. rgb2l p = 0) (map2 difference_px (take ?w r1) (take ?w r2))"
    if "list_all2 same_rgb r1 r2" for r1 r2
  proof (rule map2_all2)
    show "list_all2 same_rgb (take ?w r1) (take ?w r2)"
      using that by (rule list_all2_takeI)
  qed (rule rgb2l_same_rgb)
  have "list_all (list_all (\<lambda>p. rgb2l p = 0)) (rows (difference a b))"
    unfolding difference_def Let_def image.simps
    by (rule map2_all2 [OF rws]) (rule row)
  then have "list_all (list_all (\<lambda>px. px = 0)) (rows (convert_L (difference a b)))"
    by (simp add: convert_L_def list_all_iff)
  then have "list_all (\<lambda>px. px = 0) (concat (rows (convert_L (difference a b))))"
    by (rule concat_all)
  then show ?thesis by (simp add: getdata_def)
qed

lemma mismatch_ratio_same_size_pos:
  assumes sz: "im_size a = im_size b" and pos: "0 < xsize a" "0 < ysize a"
  shows "mismatch_ratio rs a b =
           Inr (of_nat (length (filter (\<lambda>px. px \<noteq> 0) (getdata (convert_L (difference a b)))))
                  / of_nat (xsize a * ysize a))"
proof -
  have tot: "fst (im_size (convert_L (difference a b))) * snd (im_size (convert_L (difference a b)))
               = xsize a * ysize a"
    using sz by (simp add: im_size_def dims_convert_L dims_difference)
  have t0: "xsize a * ysize a \<noteq> 0"
    using pos by simp
  show ?thesis
    unfolding mismatch_ratio_same_size [OF sz] Let_def count_nonzero tot
    using t0 by (simp only: if_False)
qed

lemma ratio_zero_alpha_only:
  assumes "alpha_only a b" "0 < xsize a" "0 < ysize a"
  shows "mismatch_ratio rs a b = Inr 0"
proof -
  have sz: "im_size a = im_size b" and rw: "list_all2 (list_all2 same_rgb) (rows a) (rows b)"
    using assms(1) by (simp_all add: alpha_only_def)
  have "filter (\<lambda>px. px \<noteq> 0) (getdata (convert_L (difference a b))) = []"
    by (rule filter_none) (rule getdata_luma_zero [OF rw])
  then show ?thesis
    by (simp add: mismatch_ratio_same_size_pos [OF sz assms(2,3)])
qed

lemma same_rgb_refl: "same_rgb p p"
  by (cases p) simp

lemma alpha_only_refl: "alpha_only a a"
  by (simp add: alpha_only_def list_all2_same same_rgb_refl)

lemma zip_concat:
  "list_all2 (\<lambda>r s. length r = length s) xss yss \<Longrightarrow>
   zip (concat xss) (concat yss) = concat (map2 zip xss yss)"
  by (induction rule: list_all2_induct) auto

lemma map2_take_rows:
  "list_all (\<lambda>r. length r = w) xs \<Longrightarrow> list_all (\<lambda>r. length r = w) ys \<Longrightarrow>
   map2 (\<lambda>r1 r2. f (take w r1) (take w r2)) xs ys = map2 f xs ys"
proof (induction xs arbitrary: ys)
  case Nil
  then show ?case by simp
next
  case (Cons x xs)
  show ?case
  proof (cases ys)
    case Nil
    then show ?thesis by simp
  next
    case (Cons y ys')
    with Cons.prems have "length x = w" "length y = w"
      and "list_all (\<lambda>r. length r = w) xs" "list_all (\<lambda>r. length r = w) ys'"
      by simp_all
    with Cons.IH [of ys'] Cons show ?thesis
      by (simp del: map_eq_conv)
  qed
qed

lemma rows_difference_same_size:
  assumes wa: "well_formed a" and wb: "well_formed b" and sz: "im_size a = im_size b"
  shows "rows (difference a b) = map2 (map2 difference_px) (rows a) (rows b)"
proof -
  have xb: "xsize b = xsize a" and yb: "ysize b = ysize a"
    using sz by (simp_all add: im_size_def)
  have la: "length (rows a) = ysize a" and lb: "length (rows b) = ysize a"
    using wa wb yb by (simp_all add: well_formed_def)
  have ra: "list_all (\<lambda>r. length r = xsize a) (rows a)"
    and rb: "list_all (\<lambda>r. length r = xsize a) (rows b)"
    using wa wb xb by (simp_all add: well_formed_def)
  have "rows (difference a b)
          = map2 (\<lambda>r1 r2. map2 difference_px (take (xsize a) r1) (take (xsize a) r2)) (rows a) (rows b)"
    by (simp add: difference_def Let_def xb yb la lb)
  also have "\<dots> = map2 (map2 difference_px) (rows a) (rows b)"
    using ra rb by (rule map2_take_rows)
  finally show ?thesis .
qed

lemma all2_same_lengths:
  "list_all (\<lambda>r. length r = w) xs \<Longrightarrow> list_all (\<lambda>r. length r = w) ys \<Longrightarrow>
   length xs = length ys \<Longrightarrow> list_all2 (\<lambda>r s. length r = length s) xs ys"
proof (induction xs arbitrary: ys)
  case Nil
  then show ?case by simp
next
  case (Cons x xs)
  then show ?case by (cases ys) simp_all
qed

lemma rows_same_lengths:
  assumes wa: "well_formed a" and wb: "well_formed b" and sz: "im_size a = im_size b"
  shows "list_all2 (\<lambda>r s. length r = length s) (rows a) (rows b)"
proof -
  have xb: "xsize b = xsize a" and yb: "ysize b = ysize a"
    using sz by (simp_all add: im_size_def)
  have "length (rows a) = length (rows b)"
    using wa wb yb by (simp add: well_formed_def)
  moreover have "list_all (\<lambda>r. length r = xsize a) (rows a)"
    and "list_all (\<lambda>r. length r = xsize a) (rows b)"
    using wa wb xb by (simp_all add: well_formed_def)
  ultimately show ?thesis
    by (simp add: all2_same_lengths)
qed

lemma getdata_luma_difference:
  assumes wa: "well_formed a" and wb: "well_formed b" and sz: "im_size a = im_size b"
  shows "getdata (convert_L (difference a b))
           = map (\<lambda>(p, q). rgb2l (difference_px p q)) (zip (getdata a) (getdata b))"
proof -
  have "getdata (convert_L (difference a b))
          = concat (map (map rgb2l) (map2 (map2 difference_px) (rows a) (rows b)))"
    by (simp add: getdata_def convert_L_def rows_difference_same_size [OF assms])
  also have "\<dots> = map rgb2l (concat (map2 (map2 difference_px) (rows a) (rows b)))"
    by (simp add: map_concat)
  also have "concat (map2 (map2 difference_px) (rows a) (rows b))
               = map (\<lambda>(p, q). difference_px p q) (concat (map2 zip (rows a) (rows b)))"
    by (simp add: map_concat case_prod_unfold comp_def)
  also have "concat (map2 zip (rows a) (rows b)) = zip (getdata a) (getdata b)"
    unfolding getdata_def by (rule zip_concat [symmetric]) (rule rows_same_lengths [OF assms])
  finally show ?thesis
    by (simp add: case_prod_unfold comp_def)
qed

lemma mismatch_ratio_resized:
  assumes ne: "im_size a \<noteq> im_size b" and pos: "0 < xsize a" "0 < ysize a"
    and rsz: "im_size (rs b (im_size a)) = im_size a"
  shows "mismatch_ratio rs a b = mismatch_ratio rs a (rs b (im_size a))"
proof -
  have "resize rs b (im_size a) = Inr (rs b (im_size a))"
    using ne pos by (auto simp: resize_def im_size_def)
  then show ?thesis
    using ne rsz by (simp add: mismatch_ratio_def)
qed

lemma nearest_ok: "resampler_ok nearest"
  by (simp add: resampler_ok_def nearest_def well_formed_def im_size_def list_all_iff)

section \<open>Properties of the run\<close>

lemma paths_distinct:
  "actual_path l \<noteq> ref_path l'" "diff_path l \<noteq> ref_path l'"
  "actual_path l \<noteq> report_path" "diff_path l \<noteq> report_path"
  "actual_path l \<noteq> diff_path l'"
  by (simp_all add: actual_path_def diff_path_def ref_path_def report_path_def path_join_def
        OUT_DIR_def REF_DIR_def)

lemma files_write_file: "files (write_file p f wd) = (files wd)(p \<mapsto> f)"
  and written_write_file: "written (write_file p f wd) = written wd @ [p]"
  and printed_write_file: "printed (write_file p f wd) = printed wd"
  by (simp_all add: write_file_def)

lemma screenshot_fails:
  "chromium pf url w h ready = Inl e \<Longrightarrow> screenshot pf url w h out ready wd = Inl e"
  by (simp add: screenshot_def)

lemma screenshot_saves:
  "chromium pf url w h ready = Inr page \<Longrightarrow>
   screenshot pf url w h out ready wd = Inr (write_file out (Png page) wd)"
  by (simp add: screenshot_def)

lemma review_viewport_capture_fails:
  "chromium pf (TARGET_URL c) w h (READY_SELECTOR c) = Inl e \<Longrightarrow>
   review_viewport pf c (label, w, h) (wd, report) = (wd, Inl e)"
  by (simp add: review_viewport_def screenshot_fails)

lemma review_viewport_skips:
  assumes "chromium pf (TARGET_URL c) w h (READY_SELECTOR c) = Inr page"
    and "files wd (ref_path label) = None"
  shows "review_viewport pf c (label, w, h) (wd, report)
           = (write_file (actual_path label) (Png page) wd, Inr (report @ [skipped_section label]))"
proof -
  have "\<not> exists_file (write_file (actual_path label) (Png page) wd) (ref_path label)"
    using assms(2) paths_distinct(1) [of label label]
    by (simp add: exists_file_def files_write_file)
  then show ?thesis
    by (simp add: review_viewport_def screenshot_saves [OF assms(1)])
qed

lemma review_viewport_cases:
  assumes "review_viewport pf c (label, w, h) (wd, report) = (wd', res)"
  shows "(wd' = wd \<and> (\<exists>e. res = Inl e))
       \<or> (\<exists>page. wd' = write_file (actual_path label) (Png page) wd
              \<and> ((\<exists>e. res = Inl e) \<or> res = Inr (report @ [skipped_section label])))
       \<or> (\<exists>page d ratio.
              wd' = write_file (diff_path label) (Png d) (write_file (actual_path label) (Png page) wd)
              \<and> res = Inr (report @ [compared_section pf c label ratio]))"
  using assms
  by (auto simp: review_viewport_def screenshot_def Let_def split: sum.splits if_splits)

lemma review_viewport_effect:
  assumes "review_viewport pf c v (wd, report) = (wd', res)"
  shows "files wd' report_path = files wd report_path
         \<and> printed wd' = printed wd
         \<and> (\<exists>ps. written wd' = written wd @ ps \<and> report_path \<notin> set ps)
         \<and> (case res of Inl e \<Rightarrow> True
             | Inr report' \<Rightarrow> \<exists>s. report' = report @ [s] \<and> section_for pf c v s)"
proof -
  obtain label w h where v: "v = (label, w, h)"
    by (cases v)
  from assms [unfolded v] have "(wd' = wd \<and> (\<exists>e. res = Inl e))
       \<or> (\<exists>page. wd' = write_file (actual_path label) (Png page) wd
              \<and> ((\<exists>e. res = Inl e) \<or> res = Inr (report @ [skipped_section label])))
       \<or> (\<exists>page d ratio.
              wd' = write_file (diff_path label) (Png d) (write_file (actual_path label) (Png page) wd)
              \<and> res = Inr (report @ [compared_section pf c label ratio]))"
    by (rule review_viewport_cases)
  then consider
      (abort) e where "wd' = wd" "res = Inl e"
    | (captured) page where "wd' = write_file (actual_path label) (Png page) wd"
        "(\<exists>e. res = Inl e) \<or> res = Inr (report @ [skipped_section label])"
    | (compared) page d ratio where
        "wd' = write_file (diff_path label) (Png d) (write_file (actual_path label) (Png page) wd)"
        "res = Inr (report @ [compared_section pf c label ratio])"
    by blast
  then show ?thesis
  proof cases
    case abort
    have "\<exists>ps. written wd = written wd @ ps \<and> report_path \<notin> set ps"
      by (rule exI [of _ "[]"]) simp
    with abort show ?thesis by simp
  next
    case captured
    have "\<exists>ps. written wd @ [actual_path label] = written wd @ ps \<and> report_path \<notin> set ps"
      by (rule exI [of _ "[actual_path label]"]) (simp add: paths_distinct [symmetric])
    moreover have "section_for pf c v (skipped_section label)"
      by (simp add: section_for_def v)
    ultimately show ?thesis
      using captured paths_distinct(3) [of label]
      by (auto simp: files_write_file written_write_file printed_write_file)
  next
    case compared
    have "\<exists>ps. written wd @ [actual_path label, diff_path label] = written wd @ ps \<and> report_path \<notin> set ps"
      by (rule exI [of _ "[actual_path label, diff_path label]"])
         (simp add: paths_distinct [symmetric])
    moreover have "section_for pf c v (compared_section pf c label ratio)"
      unfolding section_for_def v by auto
    ultimately show ?thesis
      using compared paths_distinct(3,4) [of label]
      by (simp add: files_write_file written_write_file printed_write_file)
  qed
qed

lemma review_loop_effect:
  "review_loop pf c vs (wd, report) = (wd', res) \<Longrightarrow>
   files wd' report_path = files wd report_path
   \<and> printed wd' = printed wd
   \<and> (\<exists>ps. written wd' = written wd @ ps \<and> report_path \<notin> set ps)
   \<and> (case res of Inl e \<Rightarrow> True
       | Inr report' \<Rightarrow> \<exists>secs. report' = report @ secs \<and> list_all2 (section_for pf c) vs secs)"
proof (induction vs arbitrary: wd report)
  case Nil
  then show ?case by auto
next
  case (Cons v vs)
  obtain wd1 r1 where step: "review_viewport pf c v (wd, report) = (wd1, r1)"
    by (cases "review_viewport pf c v (wd, report)")
  note eff = review_viewport_effect [OF step]
  from eff obtain ps1 where ps1: "written wd1 = written wd @ ps1" "report_path \<notin> set ps1"
    by blast
  show ?case
  proof (cases r1)
    case (Inl e)
    with Cons.prems step have "wd' = wd1" "res = Inl e"
      by simp_all
    with eff ps1 show ?thesis by auto
  next
    case (Inr report1)
    with eff obtain s where s: "report1 = report @ [s]" "section_for pf c v s"
      by auto
    from Cons.prems step Inr have rest: "review_loop pf c vs (wd1, report1) = (wd', res)"
      by simp
    note ih = Cons.IH [OF rest]
    from ih obtain ps2 where ps2: "written wd' = written wd1 @ ps2" "report_path \<notin> set ps2"
      by blast
    have w: "\<exists>ps. written wd' = written wd @ ps \<and> report_path \<notin> set ps"
      by (rule exI [of _ "ps1 @ ps2"]) (simp add: ps1 ps2)
    have r: "case res of Inl e \<Rightarrow> True
       | Inr report' \<Rightarrow> \<exists>secs. report' = report @ secs \<and> list_all2 (section_for pf c) (v # vs) secs"
    proof (cases res)
      case (Inl e)
      then show ?thesis by simp
    next
      case (Inr report')
      with ih obtain secs where "report' = report1 @ secs" "list_all2 (section_for pf c) vs secs"
        by auto
      with s have "report' = report @ (s # secs) \<and> list_all2 (section_for pf c) (v # vs) (s # secs)"
        by simp
      with Inr show ?thesis by auto
    qed
    from ih eff w r show ?thesis by simp
  qed
qed

lemma review_loop_append:
  "review_loop pf c (xs @ ys) s =
     (case review_loop pf c xs s of
        (wd, Inl e) \<Rightarrow> (wd, Inl e)
      | (wd, Inr report) \<Rightarrow> review_loop pf c ys (wd, report))"
  by (induction xs arbitrary: s) (auto split: prod.splits sum.splits)

lemma review_loop_stops:
  assumes "review_loop pf c pre s = (wd1, Inr report)"
    and "chromium pf (TARGET_URL c) w h (READY_SELECTOR c) = Inl e"
  shows "review_loop pf c (pre @ (label, w, h) # post) s = (wd1, Inl e)"
  by (simp add: review_loop_append assms(1) review_viewport_capture_fails [OF assms(2)])

section \<open>Sample evaluations\<close>

lemma sample_images_well_formed:
  "well_formed img_black" "well_formed img_white" "well_formed img_clear" "well_formed img_wide"
  by (simp_all add: well_formed_def img_black_def img_white_def img_clear_def img_wide_def)


lemma resampler_okD:
  assumes "resampler_ok rs" "well_formed b" "0 < xsize a" "0 < ysize a"
  shows "well_formed (rs b (im_size a))" "im_size (rs b (im_size a)) = im_size a"
  using assms unfolding resampler_ok_def im_size_def by blast+

lemma mismatch_ratio_normalised:
  assumes wa: "well_formed a" and wb: "well_formed b" and ok: "resampler_ok rs"
    and pos: "0 < xsize a" "0 < ysize a"
  shows "\<exists>b'. well_formed b' \<and> im_size a = im_size b'
              \<and> (im_size a = im_size b \<or> b' = rs b (im_size a))
              \<and> mismatch_ratio rs a b = mismatch_ratio rs a b'"
proof (cases "im_size a = im_size b")
  case True
  with wb show ?thesis by blast
next
  case False
  note r = resampler_okD [OF ok wb pos]
  have "mismatch_ratio rs a b = mismatch_ratio rs a (rs b (im_size a))"
    using False pos r(2) by (rule mismatch_ratio_resized)
  with r show ?thesis by metis
qed

lemma upt_0_2: "[0..<2] = [0, Suc 0]"
  by (simp add: numeral_2_eq_2)

lemma nearest_black_wide:
  "nearest img_black (im_size img_wide) = \<lparr>xsize = 2, ysize = 1, rows = [[px_black, px_black]]\<rparr>"
  by (simp add: nearest_def pixel_at_def im_size_def img_wide_def img_black_def upt_0_2)

lemma ratio_wide_black: "mismatch_ratio nearest img_wide img_black = Inr (1 / 2)"
proof -
  have "im_size img_wide \<noteq> im_size img_black"
    by (simp add: im_size_def img_wide_def img_black_def)
  moreover have "resize nearest img_black (im_size img_wide)
                   = Inr \<lparr>xsize = 2, ysize = 1, rows = [[px_black, px_black]]\<rparr>"
    unfolding resize_def nearest_black_wide
    by (simp add: im_size_def img_wide_def img_black_def)
  ultimately show ?thesis
    by (simp add: mismatch_ratio_def)
       (simp add: im_size_def img_wide_def px_black_def px_white_def difference_def convert_L_def
          getdata_def rgb2l_def absdiff_def Let_def)
qed

lemma difference_wide_black:
  "difference img_wide img_black = \<lparr>xsize = 1, ysize = 1, rows = [[(0, 0, 0, 0)]]\<rparr>"
  by (simp add: img_wide_def img_black_def px_black_def px_white_def difference_def
        absdiff_def Let_def)

lemma ratio_black_black: "mismatch_ratio nearest img_black img_black = Inr 0"
  by (rule ratio_zero_alpha_only [OF alpha_only_refl]) (simp_all add: img_black_def)

lemma skipped_is_not_compared: "skipped_section label \<noteq> compared_section pf c label ratio"
  by (simp add: skipped_section_def compared_section_def)

lemma review_viewport_compares:
  assumes cap: "chromium pf (TARGET_URL c) w h (READY_SELECTOR c) = Inr page"
    and ref: "files wd (ref_path label) = Some (Png r)"
    and ratio: "mismatch_ratio (resample pf) page r = Inr ratio"
  shows "review_viewport pf c (label, w, h) (wd, report)
           = (write_file (diff_path label) (Png (difference page r))
                (write_file (actual_path label) (Png page) wd),
              Inr (report @ [compared_section pf c label ratio]))"
proof -
  let ?wd1 = "write_file (actual_path label) (Png page) wd"
  have ne: "ref_path label \<noteq> actual_path label"
    using paths_distinct(1) [of label label] by simp
  have "exists_file ?wd1 (ref_path label)"
    using ref ne by (simp add: exists_file_def files_write_file)
  moreover have "open_rgba ?wd1 (actual_path label) = Inr page"
    by (simp add: open_rgba_def files_write_file)
  moreover have "open_rgba ?wd1 (ref_path label) = Inr r"
    using ref ne by (simp add: open_rgba_def files_write_file)
  ultimately show ?thesis
    by (simp add: review_viewport_def screenshot_saves [OF cap] ratio Let_def)
qed

lemma desktop_loop_first:
  "review_loop mobile_down default_config [(''desktop'', 1440, 900)] (empty_world, [report_title])
     = (write_file (actual_path ''desktop'') (Png img_black) empty_world,
        Inr [report_title, skipped_section ''desktop''])"
proof -
  have cap: "chromium mobile_down (TARGET_URL default_config) 1440 900 (READY_SELECTOR default_config)
               = Inr img_black"
    by (simp add: mobile_down_def)
  have ref: "files empty_world (ref_path ''desktop'') = None"
    by (simp add: empty_world_def)
  show ?thesis
    by (simp add: review_viewport_skips [OF cap ref])
qed

section \<open>The text of the report and the files of a run\<close>

lemma report_path_text: "report_path = ''ai-agents-py/reviewer/artifacts/report.md''"
  by (simp add: report_path_def path_join_def OUT_DIR_def)

lemma actual_path_text:
  "actual_path label = ''ai-agents-py/reviewer/artifacts/actual-'' @ label @ ''.png''"
  by (simp add: actual_path_def path_join_def OUT_DIR_def)

lemma diff_path_text:
  "diff_path label = ''ai-agents-py/reviewer/artifacts/diff-'' @ label @ ''.png''"
  by (simp add: diff_path_def path_join_def OUT_DIR_def)

lemma ref_path_text:
  "ref_path label = ''ai-agents-py/reviewer/reference/'' @ label @ ''.png''"
  by (simp add: ref_path_def path_join_def REF_DIR_def)

lemma skipped_section_text:
  "skipped_section label =
     ''### '' @ label @ nl @ ''Reference not found at ai-agents-py/reviewer/reference/'' @ label
       @ ''.png. Skipping.'' @ nl"
  by (simp add: skipped_section_def ref_path_text)

lemma compared_section_text:
  "compared_section pf c label ratio =
     ''### '' @ label @ nl
     @ ''- Mismatch: **'' @ pct_text pf ratio @ ''%** (''
     @ (if THRESHOLD c < ratio then [CHR 0xE2, CHR 0x9D, CHR 0x8C] @ '' Fail''
        else [CHR 0xE2, CHR 0x9C, CHR 0x85] @ '' Pass'') @ '')'' @ nl
     @ ''- Actual: ai-agents-py/reviewer/artifacts/actual-'' @ label @ ''.png'' @ nl
     @ ''- Reference: ai-agents-py/reviewer/reference/'' @ label @ ''.png'' @ nl
     @ ''- Diff: ai-agents-py/reviewer/artifacts/diff-'' @ label @ ''.png'' @ nl"
  by (simp add: compared_section_def status_label_def fail_label_def pass_label_def
        actual_path_text diff_path_text ref_path_text)

lemma hints_text:
  "hints = nl @ ''---'' @ nl @ ''## Hints'' @ nl
     @ ''- Check spacing scale / container widths'' @ nl
     @ ''- Verify fonts and line-height vs. tokens'' @ nl
     @ ''- Check color tokens/border opacity'' @ nl
     @ ''- Ensure component variants match your design system'' @ nl"
  by (simp add: hints_def)

lemma join_Cons_nonempty: "ys \<noteq> [] \<Longrightarrow> join sep (x # ys) = x @ sep @ join sep ys"
  by (cases ys) simp_all

lemma join_snoc: "join sep (xs @ [y]) = concat (map (\<lambda>x. x @ sep) xs) @ y"
  by (induction xs) (simp_all add: join_Cons_nonempty)

lemma report_text:
  "join nl (report_title # secs @ [hints])
     = ''# Visual Review Report'' @ nl @ nl @ concat (map (\<lambda>s. s @ nl) secs) @ hints"
  using join_snoc [of nl "report_title # secs" hints]
  by (simp add: report_title_def)

lemma concat_contains:
  assumes "s \<in> set secs"
  shows "\<exists>before after. concat (map (\<lambda>s. s @ sep) secs) = before @ s @ after"
proof -
  from assms obtain xs ys where "secs = xs @ s # ys"
    by (auto dest: split_list)
  then have "concat (map (\<lambda>s. s @ sep) secs)
               = concat (map (\<lambda>s. s @ sep) xs) @ s @ (sep @ concat (map (\<lambda>s. s @ sep) ys))"
    by simp
  then show ?thesis by blast
qed

lemma diff_path_inject: "diff_path l = diff_path l' \<Longrightarrow> l = l'"
  by (simp add: diff_path_text)

lemma paths_apart:
  "ref_path l \<noteq> actual_path l'" "ref_path l \<noteq> diff_path l'"
  "diff_path l \<noteq> actual_path l'" "report_path \<noteq> actual_path l" "report_path \<noteq> diff_path l"
  by (simp_all add: actual_path_text diff_path_text ref_path_text report_path_text)

lemma review_viewport_no_reference:
  assumes "files wd (ref_path label) = None"
  shows "review_viewport pf c (label, w, h) (wd, report) =
           (case chromium pf (TARGET_URL c) w h (READY_SELECTOR c) of
              Inl e \<Rightarrow> (wd, Inl e)
            | Inr page \<Rightarrow>
                (write_file (actual_path label) (Png page) wd,
                 Inr (report @ [skipped_section label])))"
proof (cases "chromium pf (TARGET_URL c) w h (READY_SELECTOR c)")
  case (Inl e)
  then show ?thesis
    by (simp add: review_viewport_capture_fails)
next
  case (Inr page)
  then show ?thesis
    by (simp add: review_viewport_skips [OF Inr assms])
qed

lemma review_viewport_precise:
  assumes "review_viewport pf c (label, w, h) (wd, report) = (wd', res)"
  shows "(\<forall>l. files wd' (ref_path l) = files wd (ref_path l))
       \<and> (\<exists>ps. written wd' = written wd @ ps
               \<and> (\<forall>l. files wd (ref_path l) = None \<longrightarrow> diff_path l \<notin> set ps))
       \<and> (\<forall>l. files wd (ref_path l) = None \<longrightarrow> files wd' (diff_path l) = files wd (diff_path l))
       \<and> (case res of Inl e \<Rightarrow> True
           | Inr report' \<Rightarrow> \<exists>s. report' = report @ [s]
               \<and> (files wd (ref_path label) = None \<longrightarrow> s = skipped_section label))"
proof -
  let ?wd1 = "\<lambda>page. write_file (actual_path label) (Png page) wd"
  have f1: "\<And>page l. files (?wd1 page) (ref_path l) = files wd (ref_path l)"
    by (simp add: files_write_file paths_apart)
  have d1: "\<And>page l. files (?wd1 page) (diff_path l) = files wd (diff_path l)"
    by (simp add: files_write_file paths_apart)
  have w0: "\<exists>ps. written wd = written wd @ ps
               \<and> (\<forall>l. files wd (ref_path l) = None \<longrightarrow> diff_path l \<notin> set ps)"
    by (rule exI [of _ "[]"]) simp
  have w1: "\<And>page. \<exists>ps. written (?wd1 page) = written wd @ ps
               \<and> (\<forall>l. files wd (ref_path l) = None \<longrightarrow> diff_path l \<notin> set ps)"
    by (rule exI [of _ "[actual_path label]"]) (simp add: written_write_file paths_apart)
  show ?thesis
  proof (cases "files wd (ref_path label)")
    case None
    note body = assms [unfolded review_viewport_no_reference [OF None]]
    show ?thesis
    proof (cases "chromium pf (TARGET_URL c) w h (READY_SELECTOR c)")
      case (Inl e)
      with body have "wd' = wd" "res = Inl e"
        by simp_all
      with w0 show ?thesis by simp
    next
      case (Inr page)
      with body have "wd' = ?wd1 page" "res = Inr (report @ [skipped_section label])"
        by simp_all
      with w1 [of page] f1 d1 show ?thesis by simp
    qed
  next
    case (Some f)
    from review_viewport_cases [OF assms] consider
        (abort) e where "wd' = wd" "res = Inl e"
      | (captured) page where "wd' = ?wd1 page"
          "(\<exists>e. res = Inl e) \<or> res = Inr (report @ [skipped_section label])"
      | (compared) page d ratio where
          "wd' = write_file (diff_path label) (Png d) (?wd1 page)"
          "res = Inr (report @ [compared_section pf c label ratio])"
      by blast
    then show ?thesis
    proof cases
      case abort
      with w0 show ?thesis by simp
    next
      case captured
      with w1 [of page] f1 d1 Some show ?thesis by auto
    next
      case compared
      have f2: "\<And>l. files wd' (ref_path l) = files wd (ref_path l)"
        using f1 by (simp add: compared(1) files_write_file paths_apart)
      have other: "\<And>l. files wd (ref_path l) = None \<Longrightarrow> diff_path l \<noteq> diff_path label"
        using Some by (auto dest: diff_path_inject)
      have d2: "\<And>l. files wd (ref_path l) = None \<Longrightarrow> files wd' (diff_path l) = files wd (diff_path l)"
        using d1 other by (simp add: compared(1) files_write_file)
      have w2: "\<exists>ps. written wd' = written wd @ ps
               \<and> (\<forall>l. files wd (ref_path l) = None \<longrightarrow> diff_path l \<notin> set ps)"
        by (rule exI [of _ "[actual_path label, diff_path label]"])
           (simp add: compared(1) written_write_file paths_apart other)
      from f2 d2 w2 compared(2) Some show ?thesis by simp
    qed
  qed
qed

lemma review_loop_precise:
  "review_loop pf c vs (wd, report) = (wd', res) \<Longrightarrow>
   (\<forall>l. files wd' (ref_path l) = files wd (ref_path l))
   \<and> (\<exists>ps. written wd' = written wd @ ps
           \<and> (\<forall>l. files wd (ref_path l) = None \<longrightarrow> diff_path l \<notin> set ps))
   \<and> (\<forall>l. files wd (ref_path l) = None \<longrightarrow> files wd' (diff_path l) = files wd (diff_path l))
   \<and> (case res of Inl e \<Rightarrow> True
       | Inr report' \<Rightarrow> \<exists>secs. report' = report @ secs
           \<and> list_all2 (\<lambda>v s. files wd (ref_path (fst v)) = None \<longrightarrow> s = skipped_section (fst v))
                 vs secs)"
proof (induction vs arbitrary: wd report)
  case Nil
  then show ?case by auto
next
  case (Cons v vs)
  obtain label w h where v: "v = (label, w, h)"
    by (cases v)
  obtain wd1 r1 where step: "review_viewport pf c (label, w, h) (wd, report) = (wd1, r1)"
    by (cases "review_viewport pf c (label, w, h) (wd, report)")
  note eff = review_viewport_precise [OF step]
  from eff have f1: "\<And>l. files wd1 (ref_path l) = files wd (ref_path l)"
    and d1: "\<And>l. files wd (ref_path l) = None \<Longrightarrow> files wd1 (diff_path l) = files wd (diff_path l)"
    by simp_all
  from eff obtain ps1 where ps1: "written wd1 = written wd @ ps1"
      "\<And>l. files wd (ref_path l) = None \<Longrightarrow> diff_path l \<notin> set ps1"
    by blast
  show ?case
  proof (cases r1)
    case (Inl e)
    with Cons.prems step v have "wd' = wd1" "res = Inl e"
      by simp_all
    with eff show ?thesis by simp
  next
    case (Inr report1)
    with eff obtain s where s: "report1 = report @ [s]"
        "files wd (ref_path label) = None \<longrightarrow> s = skipped_section label"
      by auto
    from Cons.prems step Inr v have rest: "review_loop pf c vs (wd1, report1) = (wd', res)"
      by simp
    note ih = Cons.IH [OF rest, unfolded f1]
    from ih have f2: "\<And>l. files wd' (ref_path l) = files wd (ref_path l)"
      and d2: "\<And>l. files wd (ref_path l) = None \<Longrightarrow> files wd' (diff_path l) = files wd1 (diff_path l)"
      by simp_all
    from ih obtain ps2 where ps2: "written wd' = written wd1 @ ps2"
        "\<And>l. files wd (ref_path l) = None \<Longrightarrow> diff_path l \<notin> set ps2"
      by blast
    have w: "\<exists>ps. written wd' = written wd @ ps
           \<and> (\<forall>l. files wd (ref_path l) = None \<longrightarrow> diff_path l \<notin> set ps)"
      by (rule exI [of _ "ps1 @ ps2"]) (simp add: ps1 ps2)
    have r: "case res of Inl e \<Rightarrow> True
       | Inr report' \<Rightarrow> \<exists>secs. report' = report @ secs
           \<and> list_all2 (\<lambda>v s. files wd (ref_path (fst v)) = None \<longrightarrow> s = skipped_section (fst v))
                 (v # vs) secs"
    proof (cases res)
      case (Inl e)
      then show ?thesis by simp
    next
      case (Inr report')
      with ih obtain secs where secs: "report' = report1 @ secs"
          "list_all2 (\<lambda>v s. files wd (ref_path (fst v)) = None \<longrightarrow> s = skipped_section (fst v)) vs secs"
        by auto
      with s v have "report' = report @ (s # secs)
          \<and> list_all2 (\<lambda>v s. files wd (ref_path (fst v)) = None \<longrightarrow> s = skipped_section (fst v))
                (v # vs) (s # secs)"
        by simp
      with Inr show ?thesis by auto
    qed
    from f2 d1 d2 w r show ?thesis by simp
  qed
qed

lemma skipped_section_in_report:
  assumes "list_all2 (\<lambda>v s. files wd (ref_path (fst v)) = None \<longrightarrow> s = skipped_section (fst v)) vs secs"
    and "(label, w, h) \<in> set vs" and "files wd (ref_path label) = None"
  shows "skipped_section label \<in> set secs"
proof -
  from assms(2) obtain i where i: "i < length vs" "vs ! i = (label, w, h)"
    by (auto simp: in_set_conv_nth)
  from assms(1) have len: "length vs = length secs"
    by (rule list_all2_lengthD)
  from assms(1) i(1) have "files wd (ref_path (fst (vs ! i))) = None \<longrightarrow> secs ! i = skipped_section (fst (vs ! i))"
    by (rule list_all2_nthD)
  with i(2) assms(3) have "secs ! i = skipped_section label"
    by simp
  with i(1) len show ?thesis
    by (metis nth_mem)
qed

lemma main_over_normal:
  assumes "main_over pf c registry wd = (wd', Inr ())"
  shows "\<exists>wd1 report. review_loop pf c registry (wd, [report_title]) = (wd1, Inr report)
           \<and> files wd' = (files wd1)(report_path \<mapsto> Text (join nl (report @ [hints])))
           \<and> written wd' = written wd1 @ [report_path]"
proof -
  obtain wd1 r1 where loop: "review_loop pf c registry (wd, [report_title]) = (wd1, r1)"
    by (cases "review_loop pf c registry (wd, [report_title])")
  from assms loop obtain report where r1: "r1 = Inr report"
    by (cases r1) (simp_all add: main_over_def)
  from assms loop r1
  have "wd' = (write_file report_path (Text (join nl (report @ [hints]))) wd1)
                \<lparr>printed := printed wd1 @ [[CHR 0xE2, CHR 0x9C, CHR 0x85] @ '' wrote '' @ report_path]\<rparr>"
    by (simp add: main_over_def Let_def printed_write_file)
  then have "files wd' = (files wd1)(report_path \<mapsto> Text (join nl (report @ [hints])))"
    and "written wd' = written wd1 @ [report_path]"
    by (simp_all add: files_write_file written_write_file)
  with loop r1 show ?thesis by blast
qed

lemma main_over_error:
  assumes "review_loop pf c registry (wd, [report_title]) = (wd1, Inl e)"
  shows "main_over pf c registry wd = (wd1, Inl e)"
  using assms by (simp add: main_over_def)

lemma review_viewport_decode_fails:
  assumes cap: "chromium pf (TARGET_URL c) w h (READY_SELECTOR c) = Inr page"
    and ref: "files wd (ref_path label) = Some Unreadable"
  shows "review_viewport pf c (label, w, h) (wd, report)
           = (write_file (actual_path label) (Png page) wd, Inl DecodeError)"
proof -
  let ?wd1 = "write_file (actual_path label) (Png page) wd"
  have "exists_file ?wd1 (ref_path label)"
    using ref by (simp add: exists_file_def files_write_file paths_apart)
  moreover have "open_rgba ?wd1 (actual_path label) = Inr page"
    by (simp add: open_rgba_def files_write_file)
  moreover have "open_rgba ?wd1 (ref_path label) = Inl DecodeError"
    using ref by (simp add: open_rgba_def files_write_file paths_apart)
  ultimately show ?thesis
    by (simp add: review_viewport_def screenshot_saves [OF cap])
qed

lemma review_viewport_keeps_report:
  assumes "review_viewport pf c v (wd, report) = (wd', res)"
  shows "files wd' report_path = files wd report_path"
    and "\<exists>ps. written wd' = written wd @ ps \<and> report_path \<notin> set ps"
  using review_viewport_effect [OF assms] by simp_all

lemma review_loop_keeps_report:
  assumes "review_loop pf c vs (wd, report) = (wd', res)"
  shows "files wd' report_path = files wd report_path"
    and "\<exists>ps. written wd' = written wd @ ps \<and> report_path \<notin> set ps"
  using review_loop_effect [OF assms] by simp_all

lemma identical_section:
  assumes cap: "chromium pf (TARGET_URL c) w h (READY_SELECTOR c) = Inr a"
    and ref: "files wd (ref_path label) = Some (Png b)"
    and ao: "alpha_only a b" and pos: "0 < xsize a" "0 < ysize a"
  shows "snd (review_viewport pf c (label, w, h) (wd, report))
           = Inr (report @ [compared_section pf c label 0])"
  using review_viewport_compares [OF cap ref ratio_zero_alpha_only [OF ao pos]]
  by simp

lemma section_for_text:
  "section_for pf c v s \<Longrightarrow>
   (case v of (label, w, h) \<Rightarrow>
      s = (''### '' @ label @ nl @ ''Reference not found at ai-agents-py/reviewer/reference/'' @ label
              @ ''.png. Skipping.'' @ nl)
      \<or> (\<exists>ratio. s = (''### '' @ label @ nl
                @ ''- Mismatch: **'' @ pct_text pf ratio @ ''%** ('' @ (if THRESHOLD c < ratio then [CHR 0xE2, CHR 0x9D, CHR 0x8C] @ '' Fail'' else [CHR 0xE2, CHR 0x9C, CHR 0x85] @ '' Pass'') @ '')'' @ nl
                @ ''- Actual: ai-agents-py/reviewer/artifacts/actual-'' @ label @ ''.png'' @ nl
                @ ''- Reference: ai-agents-py/reviewer/reference/'' @ label @ ''.png'' @ nl
                @ ''- Diff: ai-agents-py/reviewer/artifacts/diff-'' @ label @ ''.png'' @ nl)))"
  by (cases v) (auto simp: section_for_def skipped_section_text compared_section_text)

lemma sample_run_normal:
  "main_over black_page default_config VIEWPORTS desktop_ref_world
     = (fst (main black_page default_config desktop_ref_world), Inr ())"
proof -
  have cap: "\<And>w h. chromium black_page (TARGET_URL default_config) w h (READY_SELECTOR default_config)
               = Inr img_black"
    by (simp add: black_page_def)
  have ref: "files desktop_ref_world (ref_path ''desktop'') = Some (Png img_black)"
    by (simp add: desktop_ref_world_def)
  have ratio: "mismatch_ratio (resample black_page) img_black img_black = Inr 0"
    using ratio_black_black by (simp add: black_page_def)
  let ?wd2 = "write_file (diff_path ''desktop'') (Png (difference img_black img_black))
                (write_file (actual_path ''desktop'') (Png img_black) desktop_ref_world)"
  have noref: "files ?wd2 (ref_path ''mobile'') = None"
    by (simp add: files_write_file desktop_ref_world_def paths_apart)
       (simp add: ref_path_text)
  have "snd (main black_page default_config desktop_ref_world) = Inr ()"
    by (simp add: main_def main_over_def VIEWPORTS_def Let_def
          review_viewport_compares [OF cap ref ratio] review_viewport_skips [OF cap noref])
  then show ?thesis
    by (simp add: main_def prod_eq_iff)
qed

lemma black_page_captures:
  "chromium black_page (TARGET_URL default_config) w h (READY_SELECTOR default_config) = Inr img_black"
  "chromium black_page (TARGET_URL negative_config) w h (READY_SELECTOR negative_config) = Inr img_black"
  by (simp_all add: black_page_def)

lemma alpha_only_black_clear: "alpha_only img_black img_clear"
  by (simp add: alpha_only_def im_size_def img_black_def img_clear_def px_black_def px_clear_def)

lemma img_black_positive: "0 < xsize img_black" "0 < ysize img_black"
  by (simp_all add: img_black_def)

section \<open>The comparator: claims\<close>

text \<open>
  Claim C3 says that for equal-sized images the ratio counts every pixel at which some
  channel differs. What \<open>mismatch_ratio\<close> counts, for well-formed images of equal positive
  size, is the pixels whose channel-wise absolute difference has a non-zero luminance,
  over the number of pixels. The sample after the theorem differs in alpha only: the
  count of the claim's wording gives 1, \<open>mismatch_ratio\<close> gives 0.
\<close>

theorem mismatch_counts_nonzero_luma:
  assumes "well_formed a" and "well_formed b" and "im_size a = im_size b"
    and "0 < xsize a" and "0 < ysize a"
  shows "mismatch_ratio rs a b =
           Inr (of_nat (length [(p, q) \<leftarrow> zip (getdata a) (getdata b). rgb2l (difference_px p q) \<noteq> 0])
                  / of_nat (xsize a * ysize a))"
proof -
  have "length (filter (\<lambda>px. px \<noteq> 0) (getdata (convert_L (difference a b))))
          = length [(p, q) \<leftarrow> zip (getdata a) (getdata b). rgb2l (difference_px p q) \<noteq> 0]"
    unfolding getdata_luma_difference [OF assms(1-3)] filter_map length_map
    by (simp add: comp_def case_prod_unfold)
  then show ?thesis
    by (simp only: mismatch_ratio_same_size_pos [OF assms(3-5)])
qed

theorem mismatch_counts_nonzero_luma_witness:
  "well_formed img_black \<and> well_formed img_white \<and> im_size img_black = im_size img_white
   \<and> 0 < xsize img_black \<and> 0 < ysize img_black
   \<and> mismatch_ratio nearest img_black img_white =
        Inr (of_nat (length [(p, q) \<leftarrow> zip (getdata img_black) (getdata img_white).
                               rgb2l (difference_px p q) \<noteq> 0])
               / of_nat (xsize img_black * ysize img_black))"
proof -
  have sz: "im_size img_black = im_size img_white"
    and pos: "0 < xsize img_black" "0 < ysize img_black"
    by (simp_all add: im_size_def img_black_def img_white_def)
  show ?thesis
    using mismatch_counts_nonzero_luma
            [OF sample_images_well_formed(1) sample_images_well_formed(2) sz pos, of nearest]
          sample_images_well_formed(1,2) sz pos
    by simp
qed

theorem any_channel_metric_counterexample:
  "im_size img_black = im_size img_clear
   \<and> mismatch_ratio nearest img_black img_clear = Inr 0
   \<and> spec_mismatch_ratio img_black img_clear = 1"
  by (simp add: mismatch_ratio_def spec_mismatch_ratio_def im_size_def img_black_def img_clear_def
        px_black_def px_clear_def difference_def convert_L_def getdata_def rgb2l_def absdiff_def
        Let_def)


text \<open>
  Claim C5 says that an image compared with an identical copy has ratio 0 and status
  Pass. The ratio is 0 for every image of positive size. The status is taken by
  comparing that ratio with \<open>THRESHOLD\<close>, which is read from the environment as any
  number: the section the loop body appends for a viewport whose captured page and
  reference are the same picture carries the Pass label when \<open>THRESHOLD\<close> is not
  negative and the Fail label when it is negative. The sample after the witness has
  \<open>THRESHOLD = -1/2\<close>: ratio 0, section labelled Fail.
\<close>

theorem identical_images_status:
  assumes "chromium pf (TARGET_URL c) w h (READY_SELECTOR c) = Inr a"
    and "files wd (''ai-agents-py/reviewer/reference/'' @ label @ ''.png'') = Some (Png a)"
    and "0 < xsize a" and "0 < ysize a"
  shows "mismatch_ratio (resample pf) a a = Inr 0
         \<and> snd (review_viewport pf c (label, w, h) (wd, report))
             = Inr (report @
                 [(''### '' @ label @ nl
                   @ ''- Mismatch: **'' @ pct_text pf 0 @ ''%** ('' @ (if THRESHOLD c < 0 then [CHR 0xE2, CHR 0x9D, CHR 0x8C] @ '' Fail'' else [CHR 0xE2, CHR 0x9C, CHR 0x85] @ '' Pass'') @ '')'' @ nl
                   @ ''- Actual: ai-agents-py/reviewer/artifacts/actual-'' @ label @ ''.png'' @ nl
                   @ ''- Reference: ai-agents-py/reviewer/reference/'' @ label @ ''.png'' @ nl
                   @ ''- Diff: ai-agents-py/reviewer/artifacts/diff-'' @ label @ ''.png'' @ nl)])"
proof -
  have ref: "files wd (ref_path label) = Some (Png a)"
    using assms(2) by (simp add: ref_path_text)
  have "mismatch_ratio (resample pf) a a = Inr 0"
    using alpha_only_refl assms(3,4) by (rule ratio_zero_alpha_only)
  moreover note identical_section [OF assms(1) ref alpha_only_refl assms(3,4), of report]
  ultimately show ?thesis
    by (simp add: compared_section_text)
qed

theorem identical_images_status_witness:
  "chromium black_page (TARGET_URL default_config) 1440 900 (READY_SELECTOR default_config)
     = Inr img_black
   \<and> files desktop_ref_world (''ai-agents-py/reviewer/reference/'' @ ''desktop'' @ ''.png'') = Some (Png img_black)
   \<and> 0 < xsize img_black \<and> 0 < ysize img_black
   \<and> mismatch_ratio (resample black_page) img_black img_black = Inr 0
   \<and> snd (review_viewport black_page default_config (''desktop'', 1440, 900) (desktop_ref_world, []))
       = Inr ([] @
           [(''### '' @ ''desktop'' @ nl
             @ ''- Mismatch: **'' @ pct_text black_page 0 @ ''%** ('' @ (if THRESHOLD default_config < 0 then [CHR 0xE2, CHR 0x9D, CHR 0x8C] @ '' Fail'' else [CHR 0xE2, CHR 0x9C, CHR 0x85] @ '' Pass'') @ '')'' @ nl
             @ ''- Actual: ai-agents-py/reviewer/artifacts/actual-'' @ ''desktop'' @ ''.png'' @ nl
             @ ''- Reference: ai-agents-py/reviewer/reference/'' @ ''desktop'' @ ''.png'' @ nl
             @ ''- Diff: ai-agents-py/reviewer/artifacts/diff-'' @ ''desktop'' @ ''.png'' @ nl)])"
proof -
  have ref: "files desktop_ref_world (''ai-agents-py/reviewer/reference/'' @ ''desktop'' @ ''.png'') = Some (Png img_black)"
    by (simp add: desktop_ref_world_def ref_path_text)
  show ?thesis
    using identical_images_status [OF black_page_captures(1) ref img_black_positive, where report = "[]"]
          black_page_captures(1) [of 1440 900] ref img_black_positive
    by simp
qed

theorem negative_threshold_identical_counterexample:
  "THRESHOLD negative_config = - 1 / 2
   \<and> mismatch_ratio (resample black_page) img_black img_black = Inr 0
   \<and> snd (review_viewport black_page negative_config (''desktop'', 1440, 900) (desktop_ref_world, []))
       = Inr [(''### '' @ ''desktop'' @ nl
             @ ''- Mismatch: **'' @ ''0.0'' @ ''%** ('' @ [CHR 0xE2, CHR 0x9D, CHR 0x8C] @ '' Fail'' @ '')'' @ nl
             @ ''- Actual: ai-agents-py/reviewer/artifacts/actual-'' @ ''desktop'' @ ''.png'' @ nl
             @ ''- Reference: ai-agents-py/reviewer/reference/'' @ ''desktop'' @ ''.png'' @ nl
             @ ''- Diff: ai-agents-py/reviewer/artifacts/diff-'' @ ''desktop'' @ ''.png'' @ nl)]"
proof -
  have ref: "files desktop_ref_world (ref_path ''desktop'') = Some (Png img_black)"
    by (simp add: desktop_ref_world_def)
  have "mismatch_ratio (resample black_page) img_black img_black = Inr 0"
    using ratio_black_black by (simp add: black_page_def)
  moreover note identical_section [OF black_page_captures(2) ref alpha_only_refl img_black_positive, where report = "[]"]
  ultimately show ?thesis
    by (simp add: compared_section_text) (simp add: negative_config_def black_page_def pct_sample_def)
qed

text \<open>
  Claim C6: for two images of equal size \<open>mismatch_ratio\<close> gives the same result with its
  arguments swapped.
\<close>

theorem mismatch_ratio_symmetric:
  "im_size a = im_size b \<Longrightarrow> mismatch_ratio rs a b = mismatch_ratio rs b a"
  by (simp add: mismatch_ratio_same_size difference_commute)

theorem mismatch_ratio_symmetric_witness:
  "im_size img_black = im_size img_white
   \<and> mismatch_ratio nearest img_black img_white = mismatch_ratio nearest img_white img_black"
proof -
  have sz: "im_size img_black = im_size img_white"
    by (simp add: im_size_def img_black_def img_white_def)
  show ?thesis
    using mismatch_ratio_symmetric [OF sz, of nearest] sz by simp
qed

text \<open>
  Claim C9: for a well-formed candidate of positive size, a well-formed reference and a
  resampler that meets its contract, \<open>mismatch_ratio\<close> returns a count of pixels that is
  at most the candidate's pixel count, divided by the candidate's pixel count; the
  quotient lies between 0 and 1.
\<close>

theorem mismatch_ratio_in_unit_interval:
  assumes wa: "well_formed a" and wb: "well_formed b" and ok: "resampler_ok rs"
    and pos: "0 < xsize a" "0 < ysize a"
  shows "\<exists>n. n \<le> xsize a * ysize a
             \<and> mismatch_ratio rs a b = Inr (of_nat n / of_nat (xsize a * ysize a))
             \<and> (0::rat) \<le> of_nat n / of_nat (xsize a * ysize a)
             \<and> of_nat n / of_nat (xsize a * ysize a) \<le> (1::rat)"
proof -
  from mismatch_ratio_normalised [OF assms] obtain b' where
    wb': "well_formed b'" and sz: "im_size a = im_size b'"
    and eq: "mismatch_ratio rs a b = mismatch_ratio rs a b'"
    by blast
  let ?d = "convert_L (difference a b')"
  let ?n = "length (filter (\<lambda>px. px \<noteq> 0) (getdata ?d))"
  have "well_formed ?d"
    using wa wb' by (intro well_formed_convert_L well_formed_difference)
  then have "length (getdata ?d) = xsize ?d * ysize ?d"
    by (rule length_getdata)
  also have "\<dots> = xsize a * ysize a"
    using sz by (simp add: dims_convert_L dims_difference im_size_def)
  finally have len: "length (getdata ?d) = xsize a * ysize a" .
  have "?n \<le> length (getdata ?d)"
    by (rule length_filter_le)
  with len have n: "?n \<le> xsize a * ysize a"
    by simp
  have r: "mismatch_ratio rs a b = Inr (of_nat ?n / of_nat (xsize a * ysize a))"
    unfolding eq by (rule mismatch_ratio_same_size_pos [OF sz pos])
  have t: "0 < xsize a * ysize a"
    using pos by simp
  have lo: "(0::rat) \<le> of_nat ?n / of_nat (xsize a * ysize a)"
    by simp
  have "(of_nat ?n :: rat) \<le> of_nat (xsize a * ysize a)"
    using n by (simp only: of_nat_le_iff)
  then have hi: "of_nat ?n / of_nat (xsize a * ysize a) \<le> (1::rat)"
    using t by (simp add: divide_le_eq_1)
  from n r lo hi show ?thesis by blast
qed

theorem mismatch_ratio_in_unit_interval_witness:
  "well_formed img_wide \<and> well_formed img_black \<and> resampler_ok nearest
   \<and> im_size img_wide \<noteq> im_size img_black
   \<and> 0 < xsize img_wide \<and> 0 < ysize img_wide
   \<and> (\<exists>n. n \<le> xsize img_wide * ysize img_wide
          \<and> mismatch_ratio nearest img_wide img_black
                = Inr (of_nat n / of_nat (xsize img_wide * ysize img_wide))
          \<and> (0::rat) \<le> of_nat n / of_nat (xsize img_wide * ysize img_wide)
          \<and> of_nat n / of_nat (xsize img_wide * ysize img_wide) \<le> (1::rat))"
proof -
  have pos: "0 < xsize img_wide" "0 < ysize img_wide"
    and ne: "im_size img_wide \<noteq> im_size img_black"
    by (simp_all add: img_wide_def img_black_def im_size_def)
  show ?thesis
    using mismatch_ratio_in_unit_interval
            [OF sample_images_well_formed(4) sample_images_well_formed(1) nearest_ok pos]
          sample_images_well_formed(1,4) nearest_ok pos ne
    by simp
qed

text \<open>
  Claim C10 says that two equal-sized images that agree in red, green and blue at every
  pixel and differ in alpha have ratio 0 and that the viewport is reported as Pass. The
  ratio is 0 for every such pair of positive size. The section the loop body appends for
  such a page and reference carries the Pass label when \<open>THRESHOLD\<close> is not negative
  and the Fail label when it is negative. The sample after the witness has
  \<open>THRESHOLD = -1/2\<close>: ratio 0, section labelled Fail.
\<close>

theorem alpha_only_difference_status:
  assumes "chromium pf (TARGET_URL c) w h (READY_SELECTOR c) = Inr a"
    and "files wd (''ai-agents-py/reviewer/reference/'' @ label @ ''.png'') = Some (Png b)"
    and "alpha_only a b" and "0 < xsize a" and "0 < ysize a"
  shows "mismatch_ratio (resample pf) a b = Inr 0
         \<and> snd (review_viewport pf c (label, w, h) (wd, report))
             = Inr (report @
                 [(''### '' @ label @ nl
                   @ ''- Mismatch: **'' @ pct_text pf 0 @ ''%** ('' @ (if THRESHOLD c < 0 then [CHR 0xE2, CHR 0x9D, CHR 0x8C] @ '' Fail'' else [CHR 0xE2, CHR 0x9C, CHR 0x85] @ '' Pass'') @ '')'' @ nl
                   @ ''- Actual: ai-agents-py/reviewer/artifacts/actual-'' @ label @ ''.png'' @ nl
                   @ ''- Reference: ai-agents-py/reviewer/reference/'' @ label @ ''.png'' @ nl
                   @ ''- Diff: ai-agents-py/reviewer/artifacts/diff-'' @ label @ ''.png'' @ nl)])"
proof -
  have ref: "files wd (ref_path label) = Some (Png b)"
    using assms(2) by (simp add: ref_path_text)
  have "mismatch_ratio (resample pf) a b = Inr 0"
    using assms(3-5) by (rule ratio_zero_alpha_only)
  moreover note identical_section [OF assms(1) ref assms(3-5), of report]
  ultimately show ?thesis
    by (simp add: compared_section_text)
qed

theorem alpha_only_difference_status_witness:
  "chromium black_page (TARGET_URL default_config) 1440 900 (READY_SELECTOR default_config)
     = Inr img_black
   \<and> files clear_ref_world (''ai-agents-py/reviewer/reference/'' @ ''desktop'' @ ''.png'') = Some (Png img_clear)
   \<and> alpha_only img_black img_clear \<and> getdata img_black \<noteq> getdata img_clear
   \<and> 0 < xsize img_black \<and> 0 < ysize img_black
   \<and> mismatch_ratio (resample black_page) img_black img_clear = Inr 0
   \<and> snd (review_viewport black_page default_config (''desktop'', 1440, 900) (clear_ref_world, []))
       = Inr ([] @
           [(''### '' @ ''desktop'' @ nl
             @ ''- Mismatch: **'' @ pct_text black_page 0 @ ''%** ('' @ (if THRESHOLD default_config < 0 then [CHR 0xE2, CHR 0x9D, CHR 0x8C] @ '' Fail'' else [CHR 0xE2, CHR 0x9C, CHR 0x85] @ '' Pass'') @ '')'' @ nl
             @ ''- Actual: ai-agents-py/reviewer/artifacts/actual-'' @ ''desktop'' @ ''.png'' @ nl
             @ ''- Reference: ai-agents-py/reviewer/reference/'' @ ''desktop'' @ ''.png'' @ nl
             @ ''- Diff: ai-agents-py/reviewer/artifacts/diff-'' @ ''desktop'' @ ''.png'' @ nl)])"
proof -
  have ref: "files clear_ref_world (''ai-agents-py/reviewer/reference/'' @ ''desktop'' @ ''.png'') = Some (Png img_clear)"
    by (simp add: clear_ref_world_def ref_path_text)
  have ne: "getdata img_black \<noteq> getdata img_clear"
    by (simp add: getdata_def img_black_def img_clear_def px_black_def px_clear_def)
  show ?thesis
    using alpha_only_difference_status
            [OF black_page_captures(1) ref alpha_only_black_clear img_black_positive, where report = "[]"]
          black_page_captures(1) [of 1440 900] ref alpha_only_black_clear ne img_black_positive
    by simp
qed

theorem negative_threshold_alpha_counterexample:
  "THRESHOLD negative_config = - 1 / 2
   \<and> alpha_only img_black img_clear \<and> getdata img_black \<noteq> getdata img_clear
   \<and> mismatch_ratio (resample black_page) img_black img_clear = Inr 0
   \<and> snd (review_viewport black_page negative_config (''desktop'', 1440, 900) (clear_ref_world, []))
       = Inr [(''### '' @ ''desktop'' @ nl
             @ ''- Mismatch: **'' @ ''0.0'' @ ''%** ('' @ [CHR 0xE2, CHR 0x9D, CHR 0x8C] @ '' Fail'' @ '')'' @ nl
             @ ''- Actual: ai-agents-py/reviewer/artifacts/actual-'' @ ''desktop'' @ ''.png'' @ nl
             @ ''- Reference: ai-agents-py/reviewer/reference/'' @ ''desktop'' @ ''.png'' @ nl
             @ ''- Diff: ai-agents-py/reviewer/artifacts/diff-'' @ ''desktop'' @ ''.png'' @ nl)]"
proof -
  have ref: "files clear_ref_world (ref_path ''desktop'') = Some (Png img_clear)"
    by (simp add: clear_ref_world_def)
  have ne: "getdata img_black \<noteq> getdata img_clear"
    by (simp add: getdata_def img_black_def img_clear_def px_black_def px_clear_def)
  have "mismatch_ratio (resample black_page) img_black img_clear = Inr 0"
    using alpha_only_black_clear img_black_positive by (rule ratio_zero_alpha_only)
  moreover note identical_section
    [OF black_page_captures(2) ref alpha_only_black_clear img_black_positive, where report = "[]"]
  ultimately show ?thesis
    using alpha_only_black_clear ne
    by (simp add: compared_section_text) (simp add: negative_config_def black_page_def pct_sample_def)
qed

section \<open>The run: claims\<close>

text \<open>
  Claim C1 says that a failure of capture or comparison in one viewport leaves the other
  viewports processed and the report written. \<open>main\<close> has no handler around the loop
  body: when the body raises for a viewport (its capture failed, a picture could not be
  decoded, or the comparison raised) after the viewports before it completed, the whole
  run ends with that error in the world the body left, whatever viewports follow, and
  the report file is untouched. Two sample runs follow the witness. In the first the
  capture of \<open>desktop\<close> times out; in the second the reference of \<open>desktop\<close> cannot be
  decoded. In both, \<open>mobile\<close>, which would be captured and skipped, is never captured,
  and no report exists.
\<close>

theorem viewport_failure_aborts_run:
  assumes "review_loop pf c pre (wd, [report_title]) = (wd1, Inr report)"
    and "review_viewport pf c v (wd1, report) = (wd2, Inl e)"
  shows "main_over pf c (pre @ v # post) wd = (wd2, Inl e)
         \<and> files wd2 ''ai-agents-py/reviewer/artifacts/report.md'' = files wd ''ai-agents-py/reviewer/artifacts/report.md''
         \<and> (\<exists>ps. written wd2 = written wd @ ps \<and> ''ai-agents-py/reviewer/artifacts/report.md'' \<notin> set ps)"
proof -
  have "review_loop pf c (pre @ v # post) (wd, [report_title]) = (wd2, Inl e)"
    by (simp add: review_loop_append assms)
  then have run: "main_over pf c (pre @ v # post) wd = (wd2, Inl e)"
    by (rule main_over_error)
  from review_loop_keeps_report [OF assms(1)] obtain ps1 where
    k1: "files wd1 report_path = files wd report_path"
      "written wd1 = written wd @ ps1" "report_path \<notin> set ps1"
    by blast
  from review_viewport_keeps_report [OF assms(2)] obtain ps2 where
    k2: "files wd2 report_path = files wd1 report_path"
      "written wd2 = written wd1 @ ps2" "report_path \<notin> set ps2"
    by blast
  have "\<exists>ps. written wd2 = written wd @ ps \<and> report_path \<notin> set ps"
    by (rule exI [of _ "ps1 @ ps2"]) (simp add: k1 k2)
  with run k1(1) k2(1) show ?thesis
    by (simp add: report_path_text)
qed

theorem viewport_failure_aborts_run_witness:
  "review_loop black_page default_config [(''desktop'', 1440, 900)] (corrupt_mobile_world, [report_title])
     = (write_file (actual_path ''desktop'') (Png img_black) corrupt_mobile_world,
        Inr [report_title, skipped_section ''desktop''])
   \<and> review_viewport black_page default_config (''mobile'', 390, 844)
        (write_file (actual_path ''desktop'') (Png img_black) corrupt_mobile_world,
         [report_title, skipped_section ''desktop''])
     = (write_file (actual_path ''mobile'') (Png img_black)
          (write_file (actual_path ''desktop'') (Png img_black) corrupt_mobile_world),
        Inl DecodeError)
   \<and> main black_page default_config corrupt_mobile_world
     = (write_file (actual_path ''mobile'') (Png img_black)
          (write_file (actual_path ''desktop'') (Png img_black) corrupt_mobile_world),
        Inl DecodeError)
   \<and> files (write_file (actual_path ''mobile'') (Png img_black)
          (write_file (actual_path ''desktop'') (Png img_black) corrupt_mobile_world))
        ''ai-agents-py/reviewer/artifacts/report.md''
     = files corrupt_mobile_world ''ai-agents-py/reviewer/artifacts/report.md''"
proof -
  let ?wd1 = "write_file (actual_path ''desktop'') (Png img_black) corrupt_mobile_world"
  have noref: "files corrupt_mobile_world (ref_path ''desktop'') = None"
    by (simp add: corrupt_mobile_world_def ref_path_text)
  have pre: "review_loop black_page default_config [(''desktop'', 1440, 900)]
               (corrupt_mobile_world, [report_title])
             = (?wd1, Inr [report_title, skipped_section ''desktop''])"
    by (simp add: review_viewport_skips [OF black_page_captures(1) noref])
  have bad: "files ?wd1 (ref_path ''mobile'') = Some Unreadable"
    by (simp add: files_write_file corrupt_mobile_world_def paths_apart)
  have body: "review_viewport black_page default_config (''mobile'', 390, 844)
                (?wd1, [report_title, skipped_section ''desktop''])
              = (write_file (actual_path ''mobile'') (Png img_black) ?wd1, Inl DecodeError)"
    using black_page_captures(1) bad by (rule review_viewport_decode_fails)
  have reg: "VIEWPORTS = [(''desktop'', 1440, 900)] @ (''mobile'', 390, 844) # []"
    by (simp add: VIEWPORTS_def)
  show ?thesis
    using viewport_failure_aborts_run [OF pre body, where post = "[]"] pre body
    unfolding main_def reg by simp
qed

theorem continue_on_error_counterexample:
  "chromium desktop_down (TARGET_URL default_config) 1440 900 (READY_SELECTOR default_config)
     = Inl CaptureError
   \<and> chromium desktop_down (TARGET_URL default_config) 390 844 (READY_SELECTOR default_config)
     = Inr img_black
   \<and> main desktop_down default_config empty_world = (empty_world, Inl CaptureError)
   \<and> files empty_world (''ai-agents-py/reviewer/artifacts/actual-'' @ ''mobile'' @ ''.png'') = None
   \<and> files empty_world ''ai-agents-py/reviewer/artifacts/report.md'' = None
   \<and> files corrupt_desktop_world (''ai-agents-py/reviewer/reference/'' @ ''desktop'' @ ''.png'') = Some Unreadable
   \<and> chromium black_page (TARGET_URL default_config) 390 844 (READY_SELECTOR default_config)
     = Inr img_black
   \<and> snd (main black_page default_config corrupt_desktop_world) = Inl DecodeError
   \<and> files (fst (main black_page default_config corrupt_desktop_world)) (''ai-agents-py/reviewer/artifacts/actual-'' @ ''mobile'' @ ''.png'') = None
   \<and> files (fst (main black_page default_config corrupt_desktop_world)) ''ai-agents-py/reviewer/artifacts/report.md'' = None"
proof -
  have cap: "chromium desktop_down (TARGET_URL default_config) 1440 900 (READY_SELECTOR default_config)
     = Inl CaptureError"
    and cap2: "chromium desktop_down (TARGET_URL default_config) 390 844 (READY_SELECTOR default_config)
     = Inr img_black"
    by (simp_all add: desktop_down_def)
  have first: "main desktop_down default_config empty_world = (empty_world, Inl CaptureError)"
    by (simp add: main_def main_over_def VIEWPORTS_def review_viewport_capture_fails [OF cap])
  have bad: "files corrupt_desktop_world (ref_path ''desktop'') = Some Unreadable"
    by (simp add: corrupt_desktop_world_def)
  have second: "main black_page default_config corrupt_desktop_world
                  = (write_file (actual_path ''desktop'') (Png img_black) corrupt_desktop_world,
                     Inl DecodeError)"
    by (simp add: main_def main_over_def VIEWPORTS_def
          review_viewport_decode_fails [OF black_page_captures(1) bad])
  have none: "files (write_file (actual_path ''desktop'') (Png img_black) corrupt_desktop_world)
                (actual_path ''mobile'') = None"
    "files (write_file (actual_path ''desktop'') (Png img_black) corrupt_desktop_world)
                report_path = None"
    by (simp_all add: files_write_file corrupt_desktop_world_def)
       (simp_all add: actual_path_text ref_path_text report_path_text)
  from cap cap2 first bad black_page_captures(1) [of 390 844] second none show ?thesis
    by (simp add: empty_world_def actual_path_text ref_path_text report_path_text)
qed

text \<open>
  Claim C2 says that the comparison step (score and diff picture) resizes the reference
  to the candidate's size and raises nothing. \<open>mismatch_ratio\<close> resizes its own copy of the
  reference; \<open>main\<close> then builds the diff picture from the reference as it was loaded.
  For a two-pixel candidate and a one-pixel black reference the step raises nothing, the
  score is one half (a Fail at the default threshold), and the saved diff picture is the
  one-pixel picture of the shared area, all zero.
\<close>

theorem diff_ignores_resize_example:
  "im_size img_wide = (2, 1) \<and> im_size img_black = (1, 1)
   \<and> mismatch_ratio nearest img_wide img_black = Inr (1 / 2)
   \<and> review_viewport wide_page default_config (''desktop'', 1440, 900) (desktop_ref_world, [])
       = (write_file (diff_path ''desktop'') (Png \<lparr>xsize = 1, ysize = 1, rows = [[(0, 0, 0, 0)]]\<rparr>)
            (write_file (actual_path ''desktop'') (Png img_wide) desktop_ref_world),
          Inr [compared_section wide_page default_config ''desktop'' (1 / 2)])
   \<and> status_label (THRESHOLD default_config) (1 / 2) = fail_label"
proof -
  have cap: "chromium wide_page (TARGET_URL default_config) 1440 900 (READY_SELECTOR default_config)
               = Inr img_wide"
    by (simp add: wide_page_def)
  have ref: "files desktop_ref_world (ref_path ''desktop'') = Some (Png img_black)"
    by (simp add: desktop_ref_world_def)
  have ratio: "mismatch_ratio (resample wide_page) img_wide img_black = Inr (1 / 2)"
    using ratio_wide_black by (simp add: wide_page_def)
  have st: "status_label (THRESHOLD default_config) (1 / 2) = fail_label"
    by (simp add: status_label_def default_config_def)
  have sz: "im_size img_wide = (2, 1)" "im_size img_black = (1, 1)"
    by (simp_all add: im_size_def img_wide_def img_black_def)
  show ?thesis
    using review_viewport_compares [OF cap ref ratio, of "[]"] ratio_wide_black st sz
    by (simp add: difference_wide_black)
qed

text \<open>
  Claim C7 says that a viewport whose reference is absent raises nothing, gets no diff
  artifact, and has a section marked as skipped in the report. With no file at the
  reference path the loop body does exactly this: if the capture raises, that error
  leaves the body; otherwise the captured picture is saved and the section
  \<open>### label / Reference not found at ... Skipping.\<close> is appended. And when \<open>main\<close>
  returns normally, the report file contains that section for every such viewport of the
  registry, and the viewport's diff path is not among the paths the run wrote. The sample
  after the witness has no reference for \<open>mobile\<close> and a capture of \<open>mobile\<close> that times
  out: the run ends with the error and there is no report, so no section.
\<close>

theorem missing_reference_section:
  assumes "files wd (''ai-agents-py/reviewer/reference/'' @ label @ ''.png'') = None"
  shows "review_viewport pf c (label, w, h) (wd, report) =
           (case chromium pf (TARGET_URL c) w h (READY_SELECTOR c) of
              Inl e \<Rightarrow> (wd, Inl e)
            | Inr page \<Rightarrow>
                (wd\<lparr>files := (files wd)((''ai-agents-py/reviewer/artifacts/actual-'' @ label @ ''.png'') \<mapsto> Png page),
                    written := written wd @ [(''ai-agents-py/reviewer/artifacts/actual-'' @ label @ ''.png'')]\<rparr>,
                 Inr (report @ [(''### '' @ label @ nl @ ''Reference not found at ai-agents-py/reviewer/reference/'' @ label
              @ ''.png. Skipping.'' @ nl)])))
         \<and> (main_over pf c registry wd = (wd', Inr ()) \<and> (label, w, h) \<in> set registry \<longrightarrow>
               (\<exists>before after.
                  files wd' ''ai-agents-py/reviewer/artifacts/report.md''
                    = Some (Text (before @ (''### '' @ label @ nl @ ''Reference not found at ai-agents-py/reviewer/reference/'' @ label
              @ ''.png. Skipping.'' @ nl) @ after)))
               \<and> (\<exists>ps. written wd' = written wd @ ps
                       \<and> (''ai-agents-py/reviewer/artifacts/diff-'' @ label @ ''.png'') \<notin> set ps)
               \<and> files wd' (''ai-agents-py/reviewer/artifacts/diff-'' @ label @ ''.png'') = files wd (''ai-agents-py/reviewer/artifacts/diff-'' @ label @ ''.png''))"
proof -
  have ref: "files wd (ref_path label) = None"
    using assms by (simp add: ref_path_text)
  have body: "review_viewport pf c (label, w, h) (wd, report) =
           (case chromium pf (TARGET_URL c) w h (READY_SELECTOR c) of
              Inl e \<Rightarrow> (wd, Inl e)
            | Inr page \<Rightarrow>
                (wd\<lparr>files := (files wd)(actual_path label \<mapsto> Png page),
                    written := written wd @ [actual_path label]\<rparr>,
                 Inr (report @ [skipped_section label])))"
    by (simp add: review_viewport_no_reference [OF ref] write_file_def split: sum.split)
  have run: "(\<exists>before after.
                  files wd' report_path = Some (Text (before @ skipped_section label @ after)))
               \<and> (\<exists>ps. written wd' = written wd @ ps \<and> diff_path label \<notin> set ps)
               \<and> files wd' (diff_path label) = files wd (diff_path label)"
    if normal: "main_over pf c registry wd = (wd', Inr ())" and v: "(label, w, h) \<in> set registry"
  proof -
    from main_over_normal [OF normal] obtain wd1 report1 where
      loop: "review_loop pf c registry (wd, [report_title]) = (wd1, Inr report1)"
      and f: "files wd' = (files wd1)(report_path \<mapsto> Text (join nl (report1 @ [hints])))"
      and wr: "written wd' = written wd1 @ [report_path]"
      by blast
    note pr = review_loop_precise [OF loop]
    from pr obtain secs where secs: "report1 = [report_title] @ secs"
      "list_all2 (\<lambda>v s. files wd (ref_path (fst v)) = None \<longrightarrow> s = skipped_section (fst v))
         registry secs"
      by auto
    from pr obtain ps where ps: "written wd1 = written wd @ ps" "diff_path label \<notin> set ps"
      using ref by blast
    from pr ref have d: "files wd1 (diff_path label) = files wd (diff_path label)"
      by simp
    have "skipped_section label \<in> set secs"
      using secs(2) v ref by (rule skipped_section_in_report)
    then obtain b a where "concat (map (\<lambda>s. s @ nl) secs) = b @ skipped_section label @ a"
      using concat_contains by blast
    then have "join nl (report1 @ [hints])
                 = (''# Visual Review Report'' @ nl @ nl @ b) @ skipped_section label @ (a @ hints)"
      using report_text [of secs] by (simp add: secs(1))
    then have one: "\<exists>before after.
                  files wd' report_path = Some (Text (before @ skipped_section label @ after))"
      unfolding f by (metis fun_upd_same)
    have two: "\<exists>ps. written wd' = written wd @ ps \<and> diff_path label \<notin> set ps"
      by (rule exI [of _ "ps @ [report_path]"]) (simp add: wr ps paths_distinct)
    have three: "files wd' (diff_path label) = files wd (diff_path label)"
      using d paths_apart(5) [of label] by (simp add: f)
    from one two three show ?thesis by blast
  qed
  show ?thesis
    using body run
    unfolding report_path_text actual_path_text diff_path_text skipped_section_text
    by blast
qed

theorem missing_reference_section_witness:
  "files desktop_ref_world (''ai-agents-py/reviewer/reference/'' @ ''mobile'' @ ''.png'') = None
   \<and> review_viewport black_page default_config (''mobile'', 390, 844) (desktop_ref_world, [report_title])
       = (desktop_ref_world\<lparr>files := (files desktop_ref_world)((''ai-agents-py/reviewer/artifacts/actual-'' @ ''mobile'' @ ''.png'') \<mapsto> Png img_black),
             written := written desktop_ref_world @ [(''ai-agents-py/reviewer/artifacts/actual-'' @ ''mobile'' @ ''.png'')]\<rparr>,
          Inr ([report_title] @ [(''### '' @ ''mobile'' @ nl @ ''Reference not found at ai-agents-py/reviewer/reference/'' @ ''mobile''
              @ ''.png. Skipping.'' @ nl)]))
   \<and> main_over black_page default_config VIEWPORTS desktop_ref_world
       = (fst (main black_page default_config desktop_ref_world), Inr ())
   \<and> (''mobile'', 390, 844) \<in> set VIEWPORTS
   \<and> (\<exists>before after.
         files (fst (main black_page default_config desktop_ref_world)) ''ai-agents-py/reviewer/artifacts/report.md''
           = Some (Text (before @ (''### '' @ ''mobile'' @ nl @ ''Reference not found at ai-agents-py/reviewer/reference/'' @ ''mobile''
              @ ''.png. Skipping.'' @ nl) @ after)))
   \<and> (\<exists>ps. written (fst (main black_page default_config desktop_ref_world))
               = written desktop_ref_world @ ps
           \<and> (''ai-agents-py/reviewer/artifacts/diff-'' @ ''mobile'' @ ''.png'') \<notin> set ps)
   \<and> files (fst (main black_page default_config desktop_ref_world)) (''ai-agents-py/reviewer/artifacts/diff-'' @ ''mobile'' @ ''.png'')
       = files desktop_ref_world (''ai-agents-py/reviewer/artifacts/diff-'' @ ''mobile'' @ ''.png'')"
proof -
  have noref: "files desktop_ref_world (''ai-agents-py/reviewer/reference/'' @ ''mobile'' @ ''.png'') = None"
    by (simp add: desktop_ref_world_def ref_path_text)
  have mem: "(''mobile'', 390, 844) \<in> set VIEWPORTS"
    by (simp add: VIEWPORTS_def)
  show ?thesis
    using missing_reference_section
            [OF noref, where pf = black_page and c = default_config and w = 390 and h = 844
               and report = "[report_title]" and registry = VIEWPORTS
               and wd' = "fst (main black_page default_config desktop_ref_world)"]
          noref mem sample_run_normal black_page_captures(1) [of 390 844]
    by simp
qed

theorem missing_reference_capture_counterexample:
  "files empty_world (''ai-agents-py/reviewer/reference/'' @ ''mobile'' @ ''.png'') = None
   \<and> (''mobile'', 390, 844) \<in> set VIEWPORTS
   \<and> chromium mobile_down (TARGET_URL default_config) 390 844 (READY_SELECTOR default_config)
     = Inl CaptureError
   \<and> snd (main mobile_down default_config empty_world) = Inl CaptureError
   \<and> files (fst (main mobile_down default_config empty_world)) ''ai-agents-py/reviewer/artifacts/report.md'' = None"
proof -
  have cap: "chromium mobile_down (TARGET_URL default_config) 390 844 (READY_SELECTOR default_config)
               = Inl CaptureError"
    by (simp add: mobile_down_def)
  have "review_loop mobile_down default_config ([(''desktop'', 1440, 900)] @ (''mobile'', 390, 844) # [])
          (empty_world, [report_title])
        = (write_file (actual_path ''desktop'') (Png img_black) empty_world, Inl CaptureError)"
    using desktop_loop_first cap by (rule review_loop_stops)
  then have run: "main mobile_down default_config empty_world
       = (write_file (actual_path ''desktop'') (Png img_black) empty_world, Inl CaptureError)"
    by (simp add: main_def main_over_def VIEWPORTS_def)
  have none: "files (write_file (actual_path ''desktop'') (Png img_black) empty_world) report_path = None"
    by (simp add: files_write_file empty_world_def paths_apart)
  from cap run none show ?thesis
    by (simp add: empty_world_def VIEWPORTS_def report_path_text)
qed

text \<open>
  Claim C8: when \<open>main\<close> returns normally, the report file holds the title line, an
  empty line, then one section per viewport of the registry in registry order, each
  followed by a newline (the skipped section of its viewport, or its compared section
  with the percentage and status of some ratio), then the hints; and among the paths the
  run wrote, the report path occurs once, as the last.
\<close>

theorem report_text_once_in_order:
  assumes "main_over pf c registry wd = (wd', Inr ())"
  shows "\<exists>secs.
           files wd' ''ai-agents-py/reviewer/artifacts/report.md''
             = Some (Text (''# Visual Review Report'' @ nl @ nl
                 @ concat (map (\<lambda>s. s @ nl) secs)
                 @ (nl @ ''---'' @ nl @ ''## Hints'' @ nl
                   @ ''- Check spacing scale / container widths'' @ nl
                   @ ''- Verify fonts and line-height vs. tokens'' @ nl
                   @ ''- Check color tokens/border opacity'' @ nl
                   @ ''- Ensure component variants match your design system'' @ nl)))
           \<and> length secs = length registry
           \<and> list_all2
               (\<lambda>v s. case v of (label, w, h) \<Rightarrow>
                  s = (''### '' @ label @ nl @ ''Reference not found at ai-agents-py/reviewer/reference/'' @ label
              @ ''.png. Skipping.'' @ nl)
                  \<or> (\<exists>ratio. s = (''### '' @ label @ nl
                @ ''- Mismatch: **'' @ pct_text pf ratio @ ''%** ('' @ (if THRESHOLD c < ratio then [CHR 0xE2, CHR 0x9D, CHR 0x8C] @ '' Fail'' else [CHR 0xE2, CHR 0x9C, CHR 0x85] @ '' Pass'') @ '')'' @ nl
                @ ''- Actual: ai-agents-py/reviewer/artifacts/actual-'' @ label @ ''.png'' @ nl
                @ ''- Reference: ai-agents-py/reviewer/reference/'' @ label @ ''.png'' @ nl
                @ ''- Diff: ai-agents-py/reviewer/artifacts/diff-'' @ label @ ''.png'' @ nl)))
               registry secs
           \<and> (\<exists>ps. written wd' = written wd @ ps @ [''ai-agents-py/reviewer/artifacts/report.md'']
                   \<and> ''ai-agents-py/reviewer/artifacts/report.md'' \<notin> set ps)"
proof -
  from main_over_normal [OF assms] obtain wd1 report where
    loop: "review_loop pf c registry (wd, [report_title]) = (wd1, Inr report)"
    and f: "files wd' = (files wd1)(report_path \<mapsto> Text (join nl (report @ [hints])))"
    and w: "written wd' = written wd1 @ [report_path]"
    by blast
  note eff = review_loop_effect [OF loop]
  from eff obtain secs where secs: "report = [report_title] @ secs"
      "list_all2 (section_for pf c) registry secs"
    by auto
  from eff obtain ps where ps: "written wd1 = written wd @ ps" "report_path \<notin> set ps"
    by blast
  have filed: "files wd' report_path
      = Some (Text (''# Visual Review Report'' @ nl @ nl @ concat (map (\<lambda>s. s @ nl) secs) @ hints))"
    using report_text [of secs] by (simp add: f secs(1))
  have len: "length secs = length registry"
    using secs(2) by (simp add: list_all2_lengthD)
  have sec: "list_all2
               (\<lambda>v s. case v of (label, w, h) \<Rightarrow>
                  s = (''### '' @ label @ nl @ ''Reference not found at ai-agents-py/reviewer/reference/'' @ label
              @ ''.png. Skipping.'' @ nl)
                  \<or> (\<exists>ratio. s = (''### '' @ label @ nl
                @ ''- Mismatch: **'' @ pct_text pf ratio @ ''%** ('' @ (if THRESHOLD c < ratio then [CHR 0xE2, CHR 0x9D, CHR 0x8C] @ '' Fail'' else [CHR 0xE2, CHR 0x9C, CHR 0x85] @ '' Pass'') @ '')'' @ nl
                @ ''- Actual: ai-agents-py/reviewer/artifacts/actual-'' @ label @ ''.png'' @ nl
                @ ''- Reference: ai-agents-py/reviewer/reference/'' @ label @ ''.png'' @ nl
                @ ''- Diff: ai-agents-py/reviewer/artifacts/diff-'' @ label @ ''.png'' @ nl)))
               registry secs"
    using secs(2) by (rule list_all2_mono) (rule section_for_text)
  have wr: "\<exists>ps. written wd' = written wd @ ps @ [report_path] \<and> report_path \<notin> set ps"
    using w ps by simp
  from filed len sec wr show ?thesis
    unfolding report_path_text hints_text by blast
qed

theorem report_text_once_in_order_witness:
  "\<exists>wd'. main black_page default_config desktop_ref_world = (wd', Inr ())
     \<and> (\<exists>secs.
           files wd' ''ai-agents-py/reviewer/artifacts/report.md''
             = Some (Text (''# Visual Review Report'' @ nl @ nl
                 @ concat (map (\<lambda>s. s @ nl) secs)
                 @ (nl @ ''---'' @ nl @ ''## Hints'' @ nl
                   @ ''- Check spacing scale / container widths'' @ nl
                   @ ''- Verify fonts and line-height vs. tokens'' @ nl
                   @ ''- Check color tokens/border opacity'' @ nl
                   @ ''- Ensure component variants match your design system'' @ nl)))
           \<and> length secs = length VIEWPORTS
           \<and> list_all2
               (\<lambda>v s. case v of (label, w, h) \<Rightarrow>
                  s = (''### '' @ label @ nl @ ''Reference not found at ai-agents-py/reviewer/reference/'' @ label
              @ ''.png. Skipping.'' @ nl)
                  \<or> (\<exists>ratio. s = (''### '' @ label @ nl
                @ ''- Mismatch: **'' @ pct_text black_page ratio @ ''%** ('' @ (if THRESHOLD default_config < ratio then [CHR 0xE2, CHR 0x9D, CHR 0x8C] @ '' Fail'' else [CHR 0xE2, CHR 0x9C, CHR 0x85] @ '' Pass'') @ '')'' @ nl
                @ ''- Actual: ai-agents-py/reviewer/artifacts/actual-'' @ label @ ''.png'' @ nl
                @ ''- Reference: ai-agents-py/reviewer/reference/'' @ label @ ''.png'' @ nl
                @ ''- Diff: ai-agents-py/reviewer/artifacts/diff-'' @ label @ ''.png'' @ nl)))
               VIEWPORTS secs
           \<and> (\<exists>ps. written wd' = written desktop_ref_world @ ps @ [''ai-agents-py/reviewer/artifacts/report.md'']
                   \<and> ''ai-agents-py/reviewer/artifacts/report.md'' \<notin> set ps))"
  using report_text_once_in_order [OF sample_run_normal] sample_run_normal
  unfolding main_def by blast

end
